theory Spec2Isabelle
  imports Main "HOL-Library.Char_ord" "HOL-Library.List_Lexorder" "HOL-Library.Multiset"
    "HOL-Library.Option_ord"
begin

section \<open>Data model\<close>

text \<open>
  A memo is the JSON object the notes service returns. The scripts read it with
  \<^verbatim>\<open>memo.get(key)\<close>, so a key may be absent; \<^verbatim>\<open>name\<close> is also read with
  \<^verbatim>\<open>memo['name']\<close> and is taken as always present (the empty string standing for a
  falsy name). Fields carry the JSON types of the service: \<^verbatim>\<open>createTime\<close> is an ISO
  string, \<^verbatim>\<open>createdTs\<close> a Unix epoch number.
\<close>

record memo =
  name :: string
  memo_id :: "string option"
  uid :: "string option"
  content :: "string option"
  createTime :: "string option"
  createdTs :: "int option"

text \<open>One page of the list endpoint: \<^verbatim>\<open>data.get("memos", [])\<close> and \<^verbatim>\<open>data.get("nextPageToken")\<close>.\<close>

record page =
  memos :: "memo list"
  nextPageToken :: "string option"

text \<open>
  The outcome of one HTTP call: the call raises a network-level exception, or it yields a
  status code and a body; the body is \<open>None\<close> when \<^verbatim>\<open>.json()\<close> raises.
\<close>

datatype 'a response = ConnectionError | Response nat "'a option"

text \<open>
  What the scripts do to the outside world, in the order they do it: requests, the
  confirmation prompt and, for the scraper, the messages it prints.
\<close>

datatype event =
    HttpGet "string option"
  | Input
  | HttpDelete string
  | HttpPost string
  | HttpPatch string string
  | GetImage string
  | PostAttachment "string option"
  | YtDlp string
  | Print string "string list"

text \<open>Python truthiness of a string that may be \<^verbatim>\<open>None\<close>.\<close>

fun truthy :: "string option \<Rightarrow> bool" where
  "truthy None = False"
| "truthy (Some s) = (s \<noteq> [])"

text \<open>\<^verbatim>\<open>response.raise_for_status()\<close> raises for client and server errors.\<close>

definition raises_for_status :: "nat \<Rightarrow> bool" where
  "raises_for_status s = (400 \<le> s \<and> s < 600)"

section \<open>Paginated fetchers\<close>

text \<open>
  The list of responses are the service's answers to the successive page requests. The
  \<^verbatim>\<open>while True\<close> loop has no bound of its own: a run that asks for more pages than
  are given has no result (\<open>None\<close>).
\<close>

text \<open>\<^verbatim>\<open>delete_memos_duplicates.fetch_all_memos\<close>: the outer \<^verbatim>\<open>except Exception\<close>.\<close>

definition fetch_failed :: "memo list \<Rightarrow> memo list" where
  "fetch_failed all_memos = (if all_memos \<noteq> [] then all_memos else [])"

fun fetch_loop :: "page response list \<Rightarrow> memo list \<Rightarrow> string option \<Rightarrow> event list
    \<Rightarrow> (memo list \<times> event list) option" where
  "fetch_loop [] all_memos page_token tr = None"
| "fetch_loop (r # rs) all_memos page_token tr =
     (let tr' = tr @ [HttpGet (if truthy page_token then page_token else None)] in
      case r of
        ConnectionError \<Rightarrow> Some (fetch_failed all_memos, tr')
      | Response s body \<Rightarrow>
          if raises_for_status s then
            (if s = 400 then Some (all_memos, tr') else Some (fetch_failed all_memos, tr'))
          else
            (case body of
               None \<Rightarrow> Some (fetch_failed all_memos, tr')
             | Some data \<Rightarrow>
                 if memos data = [] then Some (all_memos, tr')
                 else if \<not> truthy (nextPageToken data) then Some (all_memos @ memos data, tr')
                 else fetch_loop rs (all_memos @ memos data) (nextPageToken data) tr'))"

definition fetch_all_memos :: "page response list \<Rightarrow> (memo list \<times> event list) option" where
  "fetch_all_memos rs = fetch_loop rs [] None []"

text \<open>\<^verbatim>\<open>delete_old_memos.get_all_memos\<close>: every failure is a \<^verbatim>\<open>break\<close>.\<close>

fun get_loop :: "page response list \<Rightarrow> memo list \<Rightarrow> string option \<Rightarrow> event list
    \<Rightarrow> (memo list \<times> event list) option" where
  "get_loop [] all_memos page_token tr = None"
| "get_loop (r # rs) all_memos page_token tr =
     (let tr' = tr @ [HttpGet (if truthy page_token then page_token else None)] in
      case r of
        ConnectionError \<Rightarrow> Some (all_memos, tr')
      | Response s body \<Rightarrow>
          if s = 200 then
            (case body of
               None \<Rightarrow> Some (all_memos, tr')
             | Some data \<Rightarrow>
                 if \<not> truthy (nextPageToken data) then Some (all_memos @ memos data, tr')
                 else get_loop rs (all_memos @ memos data) (nextPageToken data) tr')
          else Some (all_memos, tr'))"

definition get_all_memos :: "page response list \<Rightarrow> (memo list \<times> event list) option" where
  "get_all_memos rs = get_loop rs [] None []"

text \<open>A page that lets pagination continue, and the requests a run of such pages causes.\<close>

definition ok :: "page \<Rightarrow> page response" where
  "ok p = Response 200 (Some p)"

definition page_requests :: "page list \<Rightarrow> event list" where
  "page_requests ps = map HttpGet (None # map nextPageToken ps)"

section \<open>Library functions taken as parameters\<close>

text \<open>
  A \<^verbatim>\<open>datetime\<close> object is a wall-clock reading (a count of time units) and an optional UTC
  offset: \<^verbatim>\<open>utcoffset()\<close> is \<^verbatim>\<open>None\<close> for a naive object. Parsing and formatting
  belong to the Python library and are parameters of the model; a call that raises is
  \<open>None\<close>. \<^verbatim>\<open>hashlib.md5(...).hexdigest()\<close> is a parameter as well.
\<close>

datatype datetime = Datetime (wall: int) (utcoffset: "int option")

record dtlib =
  fromisoformat :: "string \<Rightarrow> datetime option"
  strftime :: "string \<Rightarrow> datetime \<Rightarrow> string"
  localtime :: "int \<Rightarrow> int option"

text \<open>\<^verbatim>\<open>datetime.fromtimestamp(ts)\<close> without a time zone: a naive local datetime.\<close>

definition fromtimestamp :: "dtlib \<Rightarrow> int \<Rightarrow> datetime option" where
  "fromtimestamp L n = (case localtime L n of None \<Rightarrow> None | Some w \<Rightarrow> Some (Datetime w None))"

datatype py_error = TypeError

text \<open>
  \<^verbatim>\<open>a < b\<close> on datetimes: two naive objects compare their wall clocks, two aware ones
  their UTC instants, and a naive object against an aware one raises \<^verbatim>\<open>TypeError\<close>.
\<close>

fun dt_less :: "datetime \<Rightarrow> datetime \<Rightarrow> py_error + bool" where
  "dt_less (Datetime w1 None) (Datetime w2 None) = Inr (w1 < w2)"
| "dt_less (Datetime w1 (Some o1)) (Datetime w2 (Some o2)) = Inr (w1 - o1 < w2 - o2)"
| "dt_less (Datetime w1 None) (Datetime w2 (Some o2)) = Inl TypeError"
| "dt_less (Datetime w1 (Some o1)) (Datetime w2 None) = Inl TypeError"

text \<open>\<^verbatim>\<open>s.replace('Z', '+00:00')\<close> and \<^verbatim>\<open>s.lower()\<close> on ASCII letters.\<close>

definition replace_Z :: "string \<Rightarrow> string" where
  "replace_Z s = concat (map (\<lambda>c. if c = CHR ''Z'' then ''+00:00'' else [c]) s)"

definition lower_char :: "char \<Rightarrow> char" where
  "lower_char c = (if CHR ''A'' \<le> c \<and> c \<le> CHR ''Z'' then char_of (of_char c + (32::nat)) else c)"

definition lower :: "string \<Rightarrow> string" where
  "lower s = map lower_char s"

text \<open>The module-level configuration of the scripts.\<close>

record config =
  MEMOS_URL :: string
  MEMOS_TOKEN :: "string option"
  CUTOFF_DATE :: string
  DRY_RUN :: bool
  MAX_SCROLLS :: int

text \<open>
  What a run leaves behind: its requests and prompts in order, what the classifier
  produced (\<open>None\<close> when the run ended before classifying) and the two counters of the
  final summary.
\<close>

record 'p run =
  events :: "event list"
  classified :: "'p option"
  deleted_count :: nat
  failed_count :: nat

section \<open>Duplicate cleaner (delete_memos_duplicates.py)\<close>

definition extract_date :: "dtlib \<Rightarrow> string \<Rightarrow> string" where
  "extract_date L timestamp_str =
     (if timestamp_str = [] then ''unknown''
      else case fromisoformat L (replace_Z timestamp_str) of
             None \<Rightarrow> ''unknown''
           | Some dt \<Rightarrow> strftime L ''%Y-%m-%d'' dt)"

text \<open>\<^verbatim>\<open>memo.get("content", "")\<close> and \<^verbatim>\<open>memo.get("createTime", "")\<close>.\<close>

definition get_content :: "memo \<Rightarrow> string" where
  "get_content m = (case content m of None \<Rightarrow> [] | Some c \<Rightarrow> c)"

definition get_createTime :: "memo \<Rightarrow> string" where
  "get_createTime m = (case createTime m of None \<Rightarrow> [] | Some t \<Rightarrow> t)"

definition composite_key :: "(string \<Rightarrow> string) \<Rightarrow> dtlib \<Rightarrow> memo \<Rightarrow> string" where
  "composite_key md5 L m = md5 (get_content m) @ ''_'' @ extract_date L (get_createTime m)"

text \<open>
  The \<^verbatim>\<open>defaultdict(list)\<close>: keys in the order of their first insertion, each with the
  memos appended to it in fetch order.
\<close>

type_synonym groups = "(string \<times> memo list) list"

fun append_group :: "string \<Rightarrow> memo \<Rightarrow> groups \<Rightarrow> groups" where
  "append_group k m [] = [(k, [m])]"
| "append_group k m ((k', ml) # g) =
     (if k = k' then (k', ml @ [m]) # g else (k', ml) # append_group k m g)"

fun group_memos :: "(string \<Rightarrow> string) \<Rightarrow> dtlib \<Rightarrow> memo list \<Rightarrow> groups \<Rightarrow> groups" where
  "group_memos md5 L [] g = g"
| "group_memos md5 L (m # ms) g =
     (if get_content m \<noteq> [] then group_memos md5 L ms (append_group (composite_key md5 L m) m g)
      else group_memos md5 L ms g)"

definition find_duplicates :: "(string \<Rightarrow> string) \<Rightarrow> dtlib \<Rightarrow> memo list \<Rightarrow> groups" where
  "find_duplicates md5 L ms = filter (\<lambda>(k, memo_list). length memo_list > 1) (group_memos md5 L ms [])"

text \<open>
  The inner loop over \<^verbatim>\<open>memo_list[1:]\<close>. The state is the trace and the two counters;
  \<open>reply i\<close> is the service's answer to the request that is the \<open>i\<close>-th event of the run.
\<close>

type_synonym tally = "event list \<times> nat \<times> nat"

fun delete_each :: "bool \<Rightarrow> string \<Rightarrow> (nat \<Rightarrow> unit response) \<Rightarrow> memo list \<Rightarrow> tally \<Rightarrow> tally" where
  "delete_each dry url reply [] st = st"
| "delete_each dry url reply (m # ms) (tr, deleted, failed) =
     (if dry then delete_each dry url reply ms (tr, deleted + 1, failed)
      else
        (case reply (length tr) of
           ConnectionError \<Rightarrow>
             delete_each dry url reply ms (tr @ [HttpDelete (url @ ''/api/v1/'' @ name m)], deleted, failed + 1)
         | Response s body \<Rightarrow>
             if raises_for_status s
             then delete_each dry url reply ms (tr @ [HttpDelete (url @ ''/api/v1/'' @ name m)], deleted, failed + 1)
             else delete_each dry url reply ms (tr @ [HttpDelete (url @ ''/api/v1/'' @ name m)], deleted + 1, failed)))"

text \<open>The outer loop: \<^verbatim>\<open>memo_list.sort(key=lambda x: x.get("createTime", ""))\<close> is stable.\<close>

fun delete_groups :: "bool \<Rightarrow> string \<Rightarrow> (nat \<Rightarrow> unit response) \<Rightarrow> groups \<Rightarrow> tally \<Rightarrow> tally" where
  "delete_groups dry url reply [] st = st"
| "delete_groups dry url reply ((k, memo_list) # g) st =
     delete_groups dry url reply g
       (delete_each dry url reply (tl (sort_key get_createTime memo_list)) st)"

text \<open>\<open>answer\<close> is what \<^verbatim>\<open>input()\<close> returns; \<open>None\<close> when it raises (end of input).\<close>

definition delete_duplicates :: "config \<Rightarrow> string option \<Rightarrow> (nat \<Rightarrow> unit response) \<Rightarrow> groups
    \<Rightarrow> event list \<Rightarrow> tally" where
  "delete_duplicates cfg answer reply duplicates tr =
     (if duplicates = [] then (tr, 0, 0)
      else if DRY_RUN cfg then delete_groups True (MEMOS_URL cfg) reply duplicates (tr, 0, 0)
      else
        (case answer of
           None \<Rightarrow> (tr @ [Input], 0, 0)
         | Some confirm \<Rightarrow>
             if lower confirm \<noteq> ''yes'' then (tr @ [Input], 0, 0)
             else delete_groups False (MEMOS_URL cfg) reply duplicates (tr @ [Input], 0, 0)))"

definition main_duplicates :: "config \<Rightarrow> (string \<Rightarrow> string) \<Rightarrow> dtlib \<Rightarrow> page response list
    \<Rightarrow> string option \<Rightarrow> (nat \<Rightarrow> unit response) \<Rightarrow> groups run option" where
  "main_duplicates cfg md5 L responses answer reply =
     (if \<not> truthy (MEMOS_TOKEN cfg)
      then Some \<lparr>events = [], classified = None, deleted_count = 0, failed_count = 0\<rparr>
      else
        (case fetch_all_memos responses of
           None \<Rightarrow> None
         | Some (fetched, tr) \<Rightarrow>
             if fetched = []
             then Some \<lparr>events = tr, classified = None, deleted_count = 0, failed_count = 0\<rparr>
             else
               (let duplicates = find_duplicates md5 L fetched in
                case delete_duplicates cfg answer reply duplicates tr of
                  (tr', deleted, failed) \<Rightarrow>
                    Some \<lparr>events = tr', classified = Some duplicates,
                          deleted_count = deleted, failed_count = failed\<rparr>)))"

section \<open>Cutoff cleaner (delete_old_memos.py)\<close>

text \<open>The value of \<^verbatim>\<open>memo.get("createTime") or memo.get("createdTs")\<close>.\<close>

datatype ts = TStr string | TNum int

definition create_time_of :: "memo \<Rightarrow> ts option" where
  "create_time_of m =
     (if truthy (createTime m) then map_option TStr (createTime m)
      else map_option TNum (createdTs m))"

fun falsy :: "ts option \<Rightarrow> bool" where
  "falsy None = True"
| "falsy (Some (TStr s)) = (s = [])"
| "falsy (Some (TNum n)) = (n = 0)"

text \<open>The \<^verbatim>\<open>isinstance(create_time, str)\<close> branch; \<open>None\<close> when the conversion raises.\<close>

fun memo_dt :: "dtlib \<Rightarrow> ts \<Rightarrow> datetime option" where
  "memo_dt L (TStr s) = fromisoformat L (replace_Z s)"
| "memo_dt L (TNum n) = fromtimestamp L n"

datatype action = Delete | Skip

definition classify :: "dtlib \<Rightarrow> datetime \<Rightarrow> memo \<Rightarrow> action" where
  "classify L cutoff_dt m =
     (if falsy (create_time_of m) then Skip
      else
        (case memo_dt L (the (create_time_of m)) of
           None \<Rightarrow> Skip
         | Some d \<Rightarrow>
             (case dt_less d cutoff_dt of
                Inl e \<Rightarrow> Skip
              | Inr b \<Rightarrow> if b then Delete else Skip)))"

record entry =
  entry_name :: string
  entry_id :: "string option"
  entry_content :: string
  entry_date :: string

definition make_entry :: "dtlib \<Rightarrow> memo \<Rightarrow> entry" where
  "make_entry L m =
     \<lparr>entry_name = name m,
      entry_id = (if truthy (memo_id m) then memo_id m else uid m),
      entry_content = take 50 (get_content m),
      entry_date = (case memo_dt L (the (create_time_of m)) of
                      None \<Rightarrow> [] | Some d \<Rightarrow> strftime L ''%Y-%m-%d %H:%M:%S'' d)\<rparr>"

fun select_memos :: "dtlib \<Rightarrow> datetime \<Rightarrow> memo list \<Rightarrow> entry list" where
  "select_memos L cutoff_dt [] = []"
| "select_memos L cutoff_dt (m # ms) =
     (case classify L cutoff_dt m of
        Delete \<Rightarrow> make_entry L m # select_memos L cutoff_dt ms
      | Skip \<Rightarrow> select_memos L cutoff_dt ms)"

text \<open>\<^verbatim>\<open>delete_memo\<close>: the request, and whether its answer counts as a success.\<close>

definition delete_url :: "string \<Rightarrow> entry \<Rightarrow> string" where
  "delete_url url e =
     (if entry_name e \<noteq> [] then url @ ''/api/v1/'' @ entry_name e
      else url @ ''/api/v1/memos/'' @ (case entry_id e of None \<Rightarrow> ''None'' | Some i \<Rightarrow> i))"

fun delete_ok :: "unit response \<Rightarrow> bool" where
  "delete_ok ConnectionError = False"
| "delete_ok (Response s body) = (s = 200)"

fun delete_entries :: "bool \<Rightarrow> string \<Rightarrow> (nat \<Rightarrow> unit response) \<Rightarrow> entry list \<Rightarrow> tally \<Rightarrow> tally" where
  "delete_entries dry url reply [] st = st"
| "delete_entries dry url reply (e # es) (tr, deleted, failed) =
     (if dry then delete_entries dry url reply es (tr, deleted + 1, failed)
      else if delete_ok (reply (length tr))
      then delete_entries dry url reply es (tr @ [HttpDelete (delete_url url e)], deleted + 1, failed)
      else delete_entries dry url reply es (tr @ [HttpDelete (delete_url url e)], deleted, failed + 1))"

definition main_old :: "config \<Rightarrow> dtlib \<Rightarrow> page response list \<Rightarrow> (nat \<Rightarrow> unit response)
    \<Rightarrow> entry list run option" where
  "main_old cfg L responses reply =
     (if \<not> (MEMOS_URL cfg \<noteq> [] \<and> truthy (MEMOS_TOKEN cfg))
      then Some \<lparr>events = [], classified = None, deleted_count = 0, failed_count = 0\<rparr>
      else
        (case fromisoformat L (replace_Z (CUTOFF_DATE cfg)) of
           None \<Rightarrow> Some \<lparr>events = [], classified = None, deleted_count = 0, failed_count = 0\<rparr>
         | Some cutoff_dt \<Rightarrow>
             (case get_all_memos responses of
                None \<Rightarrow> None
              | Some (fetched, tr) \<Rightarrow>
                  if fetched = []
                  then Some \<lparr>events = tr, classified = None, deleted_count = 0, failed_count = 0\<rparr>
                  else
                    (let memos_to_delete = select_memos L cutoff_dt fetched in
                     if memos_to_delete = []
                     then Some \<lparr>events = tr, classified = Some [], deleted_count = 0, failed_count = 0\<rparr>
                     else
                       (case delete_entries (DRY_RUN cfg) (MEMOS_URL cfg) reply memos_to_delete (tr, 0, 0) of
                          (tr', deleted, failed) \<Rightarrow>
                            Some \<lparr>events = tr', classified = Some memos_to_delete,
                                  deleted_count = deleted, failed_count = failed\<rparr>)))))"

section \<open>Notions the claims are stated with\<close>

text \<open>
  The \<^verbatim>\<open>createdAt\<close> of a record as the cutoff cleaner reads it: \<open>None\<close> when the
  timestamp is missing (or falsy) or when its conversion raises.
\<close>

definition createdAt :: "dtlib \<Rightarrow> memo \<Rightarrow> datetime option" where
  "createdAt L m = (if falsy (create_time_of m) then None else memo_dt L (the (create_time_of m)))"

text \<open>
  The records the loops of \<^verbatim>\<open>delete_duplicates\<close> visit: in every group, all but the
  first of the list sorted by \<^verbatim>\<open>createTime\<close>.
\<close>

definition delete_targets :: "groups \<Rightarrow> memo list" where
  "delete_targets duplicates =
     concat (map (\<lambda>(k, memo_list). tl (sort_key get_createTime memo_list)) duplicates)"

text \<open>The fetched records that \<^verbatim>\<open>find_duplicates\<close> files under a key, in fetch order.\<close>

definition members :: "(string \<Rightarrow> string) \<Rightarrow> dtlib \<Rightarrow> string \<Rightarrow> memo list \<Rightarrow> memo list" where
  "members md5 L k ms = filter (\<lambda>m. get_content m \<noteq> [] \<and> composite_key md5 L m = k) ms"

text \<open>
  The \<^verbatim>\<open>createdAt\<close> of a record as the duplicate cleaner parses it, taken as an
  instant: the UTC reading of an aware datetime, the wall clock of a naive one, \<open>None\<close>
  when the timestamp is missing or does not parse (\<open>None\<close> comes before every instant).
\<close>

definition created_instant :: "dtlib \<Rightarrow> memo \<Rightarrow> int option" where
  "created_instant L m =
     (if get_createTime m = [] then None
      else case fromisoformat L (replace_Z (get_createTime m)) of
             None \<Rightarrow> None
           | Some d \<Rightarrow> Some (case utcoffset d of None \<Rightarrow> wall d | Some off \<Rightarrow> wall d - off))"

text \<open>
  The records of a list carry timestamps whose strings order as their instants do, as
  timestamps written in one format and with one offset.
\<close>

definition chronological :: "dtlib \<Rightarrow> memo list \<Rightarrow> bool" where
  "chronological L g =
     list_all (\<lambda>x. list_all (\<lambda>y. (get_createTime x \<le> get_createTime y) =
                                  (created_instant L x \<le> created_instant L y)) g) g"

section \<open>Scraper (x_scraper_fast_scrolling.py)\<close>

text \<open>
  The world the scraper talks to: \<open>http i\<close> is the answer to the request that is the
  \<open>i\<close>-th event of the run (its body being the \<^verbatim>\<open>name\<close> of the returned object),
  \<open>ytdlp i\<close> tells whether the download started as the \<open>i\<close>-th event left a file, and
  \<open>visible i\<close> are the tweets on the page at scroll \<open>i\<close>. The traces of the scraper also
  hold the messages it prints, as \<open>Print\<close> events.
\<close>

text \<open>
  What the scraper reads off one tweet element: the non-empty texts of its
  \<^verbatim>\<open>tweetText\<close> parts, the \<^verbatim>\<open>datetime\<close> attribute of its first \<^verbatim>\<open>time\<close> element,
  the sources of its images, whether it holds a \<^verbatim>\<open>video\<close> element, and the link to the
  tweet. An element whose reading raises is \<open>None\<close> in the list of visible tweets.
\<close>

record tweet =
  texts :: "string list"
  time_attr :: "string option"
  image_srcs :: "string list"
  has_video :: bool
  status_href :: "string option"

record world =
  http :: "nat \<Rightarrow> string option response"
  ytdlp :: "nat \<Rightarrow> bool"
  visible :: "nat \<Rightarrow> tweet option list"
  logged_in :: bool
  tweets_loaded :: bool

text \<open>\<^verbatim>\<open>str(n)\<close> for a count, and the \<^verbatim>\<open>str\<close> of a value that may be \<^verbatim>\<open>None\<close>.\<close>

fun str_nat :: "nat \<Rightarrow> string" where
  "str_nat n = (if n < 10 then [char_of (48 + n)] else str_nat (n div 10) @ [char_of (48 + n mod 10)])"

definition str_opt :: "string option \<Rightarrow> string" where
  "str_opt v = (case v of None \<Rightarrow> ''None'' | Some s \<Rightarrow> s)"

definition upload_image_to_memos :: "world \<Rightarrow> string \<Rightarrow> string option \<Rightarrow> event list
    \<Rightarrow> string option \<times> event list" where
  "upload_image_to_memos W img_url memo_name tr =
     (let url = takeWhile (\<lambda>c. c \<noteq> CHR ''?'') img_url @ ''?format=jpg&name=large'';
          failed = Print ''Failed to upload image'' [url] in
      case http W (length tr) of
        ConnectionError \<Rightarrow> (None, tr @ [GetImage url, failed])
      | Response s body \<Rightarrow>
          if raises_for_status s then (None, tr @ [GetImage url, failed])
          else
            (case http W (Suc (length tr)) of
               ConnectionError \<Rightarrow> (None, tr @ [GetImage url, PostAttachment memo_name, failed])
             | Response s' body' \<Rightarrow>
                 if raises_for_status s'
                 then (None, tr @ [GetImage url, PostAttachment memo_name, failed])
                 else
                   (case body' of
                      None \<Rightarrow> (None, tr @ [GetImage url, PostAttachment memo_name, failed])
                    | Some attachment \<Rightarrow> (attachment, tr @ [GetImage url, PostAttachment memo_name]))))"

fun upload_images :: "world \<Rightarrow> string list \<Rightarrow> string option \<Rightarrow> event list \<Rightarrow> event list" where
  "upload_images W [] memo_name tr = tr"
| "upload_images W (img_url # imgs) memo_name tr =
     (case upload_image_to_memos W img_url memo_name tr of
        (attachment, tr') \<Rightarrow>
          upload_images W imgs memo_name
            (if truthy attachment then tr' @ [Print ''Attached'' [str_opt attachment]] else tr'))"

text \<open>\<^verbatim>\<open>download_video_with_ytdlp\<close> followed by \<^verbatim>\<open>upload_video_to_memos\<close>.\<close>

definition upload_video :: "world \<Rightarrow> string \<Rightarrow> string option \<Rightarrow> event list \<Rightarrow> event list" where
  "upload_video W video_url memo_name tr =
     (if \<not> ytdlp W (length tr) then tr @ [YtDlp video_url, Print ''yt-dlp failed'' []]
      else
        (case http W (Suc (length tr)) of
           ConnectionError \<Rightarrow>
             tr @ [YtDlp video_url, PostAttachment memo_name, Print ''Failed to upload video'' []]
         | Response s body \<Rightarrow>
             if raises_for_status s \<or> body = None
             then tr @ [YtDlp video_url, PostAttachment memo_name, Print ''Failed to upload video'' []]
             else tr @ [YtDlp video_url, PostAttachment memo_name,
                        Print ''Video uploaded'' [str_opt (the body)]]))"

definition attach_media :: "world \<Rightarrow> string list \<Rightarrow> string option \<Rightarrow> string option \<Rightarrow> event list
    \<Rightarrow> event list" where
  "attach_media W images video_url memo_name tr =
     (let tr' = upload_images W images memo_name tr in
      if truthy video_url then upload_video W (the video_url) memo_name tr' else tr')"

text \<open>
  \<^verbatim>\<open>create_memo\<close>: the creation request, then the request that backdates the new
  memo, then the attachments. Both \<^verbatim>\<open>except\<close> clauses print a failure and return.
\<close>

definition create_memo :: "world \<Rightarrow> string \<Rightarrow> string option \<Rightarrow> string list \<Rightarrow> string option
    \<Rightarrow> event list \<Rightarrow> event list" where
  "create_memo W text timestamp images video_url tr =
     (case http W (length tr) of
        ConnectionError \<Rightarrow> tr @ [HttpPost text, Print ''Failed to create memo'' []]
      | Response s body \<Rightarrow>
          if raises_for_status s then tr @ [HttpPost text, Print ''Failed to create memo'' []]
          else
            (case body of
               None \<Rightarrow> tr @ [HttpPost text, Print ''Failed to create memo'' []]
             | Some memo_name \<Rightarrow>
                 if truthy timestamp then
                   (case http W (length tr + 2) of
                      ConnectionError \<Rightarrow>
                        tr @ [HttpPost text, Print ''Memo created'' [str_opt memo_name],
                              HttpPatch (str_opt memo_name) (the timestamp),
                              Print ''Failed to create memo'' []]
                    | Response s' body' \<Rightarrow>
                        attach_media W images video_url memo_name
                          (tr @ [HttpPost text, Print ''Memo created'' [str_opt memo_name],
                                 HttpPatch (str_opt memo_name) (the timestamp),
                                 (if s' = 200 then Print ''Timestamp updated'' [the timestamp]
                                  else Print ''Timestamp update failed'' [str_nat s'])]))
                 else
                   attach_media W images video_url memo_name
                     (tr @ [HttpPost text, Print ''Memo created'' [str_opt memo_name]])))"

text \<open>What the loop body computes from a tweet before it looks at \<^verbatim>\<open>seen_tweets\<close>.\<close>

definition tweet_text :: "tweet \<Rightarrow> string" where
  "tweet_text t =
     (if length (texts t) > 1
      then texts t ! 0 @ [CHR 0x0A, CHR 0x0A] @ ''---'' @ [CHR 0x0A, CHR 0x0A] @ texts t ! 1
      else texts t ! 0)"

definition tweet_timestamp :: "tweet \<Rightarrow> string option" where
  "tweet_timestamp t = (if truthy (time_attr t) then time_attr t else None)"

definition tweet_video_url :: "tweet \<Rightarrow> string option" where
  "tweet_video_url t =
     (if has_video t \<and> truthy (status_href t)
      then (if hd (the (status_href t)) = CHR ''/'' then Some (''https://x.com'' @ the (status_href t))
            else status_href t)
      else None)"

definition signature :: "(string \<Rightarrow> string) \<Rightarrow> tweet \<Rightarrow> string" where
  "signature md5 t =
     md5 (tweet_text t @ str_opt (tweet_timestamp t) @ str_nat (length (image_srcs t))
          @ (if truthy (tweet_video_url t) then ''True'' else ''False''))"

text \<open>The loop over the visible tweets; the state is \<^verbatim>\<open>seen_tweets\<close> and the trace.\<close>

fun process_tweets :: "world \<Rightarrow> (string \<Rightarrow> string) \<Rightarrow> tweet option list
    \<Rightarrow> string set \<times> event list \<Rightarrow> string set \<times> event list" where
  "process_tweets W md5 [] st = st"
| "process_tweets W md5 (None # ts) st = process_tweets W md5 ts st"
| "process_tweets W md5 (Some t # ts) (seen_tweets, tr) =
     (if texts t = [] then process_tweets W md5 ts (seen_tweets, tr)
      else if signature md5 t \<notin> seen_tweets
      then process_tweets W md5 ts
             (insert (signature md5 t) seen_tweets,
              create_memo W (tweet_text t) (tweet_timestamp t) (image_srcs t) (tweet_video_url t) tr)
      else process_tweets W md5 ts (seen_tweets, tr))"

function scrape_loop :: "world \<Rightarrow> (string \<Rightarrow> string) \<Rightarrow> int \<Rightarrow> nat
    \<Rightarrow> string set \<times> event list \<Rightarrow> string set \<times> event list" where
  "scrape_loop W md5 max_scrolls scroll_attempts st =
     (if int scroll_attempts < max_scrolls
      then scrape_loop W md5 max_scrolls (Suc scroll_attempts)
             (process_tweets W md5 (visible W scroll_attempts) st)
      else st)"
  by pat_completeness auto
termination
  by (relation "measure (\<lambda>(W, md5, max_scrolls, scroll_attempts, st). nat (max_scrolls - int scroll_attempts))")
     auto

definition scrape_x :: "config \<Rightarrow> world \<Rightarrow> (string \<Rightarrow> string) \<Rightarrow> string set \<times> event list" where
  "scrape_x cfg W md5 =
     (if \<not> logged_in W then ({}, [])
      else if \<not> tweets_loaded W then ({}, [])
      else scrape_loop W md5 (MAX_SCROLLS cfg) 0 ({}, []))"

text \<open>The requests that create a memo, among the events of a trace.\<close>

fun is_post :: "event \<Rightarrow> bool" where
  "is_post (HttpPost b) = True"
| "is_post e = False"

fun is_delete :: "event \<Rightarrow> bool" where
  "is_delete (HttpDelete u) = True"
| "is_delete e = False"

text \<open>The events of uploading attachments: downloads, attachment uploads and messages.\<close>

fun media_event :: "event \<Rightarrow> bool" where
  "media_event (GetImage u) = True"
| "media_event (PostAttachment n) = True"
| "media_event (YtDlp u) = True"
| "media_event (Print msg args) = True"
| "media_event e = False"

text \<open>What \<^verbatim>\<open>create_memo\<close> prints after the request that backdates the memo.\<close>

definition backdate_report :: "string option response \<Rightarrow> string \<Rightarrow> event" where
  "backdate_report r timestamp =
     (case r of
        ConnectionError \<Rightarrow> Print ''Failed to create memo'' []
      | Response s body \<Rightarrow>
          if s = 200 then Print ''Timestamp updated'' [timestamp]
          else Print ''Timestamp update failed'' [str_nat s])"

section \<open>Example data\<close>

text \<open>
  The three records of the specification's scenario, a page holding two of them, and the
  values of the library functions at the strings the examples use (time counted in
  seconds since the Unix epoch, local time being UTC).
\<close>

definition memoA :: memo where
  "memoA = \<lparr>name = ''memos/A'', memo_id = None, uid = None, content = Some ''hi'',
            createTime = Some ''2024-01-01T10:00:00Z'', createdTs = None\<rparr>"

definition memoB :: memo where
  "memoB = \<lparr>name = ''memos/B'', memo_id = None, uid = None, content = Some ''hi'',
            createTime = Some ''2024-01-01T12:00:00Z'', createdTs = None\<rparr>"

definition memoC :: memo where
  "memoC = \<lparr>name = ''memos/C'', memo_id = None, uid = None, content = Some ''bye'',
            createTime = Some ''2024-01-01T09:00:00Z'', createdTs = None\<rparr>"

definition page1 :: page where
  "page1 = \<lparr>memos = [memoA, memoB], nextPageToken = Some ''t2''\<rparr>"

definition last_page :: page where
  "last_page = \<lparr>memos = [memoA, memoB, memoC], nextPageToken = None\<rparr>"

definition example_lib :: dtlib where
  "example_lib =
     \<lparr>fromisoformat = map_of
        [(''2024-01-01T09:00:00+00:00'', Datetime 1704099600 (Some 0)),
         (''2024-01-01T10:00:00+00:00'', Datetime 1704103200 (Some 0)),
         (''2024-01-01T12:00:00+00:00'', Datetime 1704110400 (Some 0)),
         (''2024-12-31T23:59:59+00:00'', Datetime 1735689599 (Some 0)),
         (''2025-01-01T00:00:00+00:00'', Datetime 1735689600 (Some 0)),
         (''2025-12-26T00:00:00+00:00'', Datetime 1766707200 (Some 0)),
         (''2024-01-01T20:00:00+00:00'', Datetime 1704139200 (Some 0)),
         (''2024-01-01T23:00:00+05:00'', Datetime 1704150000 (Some 18000))],
      strftime = (\<lambda>fmt d. if 1704067200 \<le> wall d \<and> wall d < 1704153600
                             then ''2024-01-01'' else ''other''),
      localtime = Some\<rparr>"

definition live :: config where
  "live = \<lparr>MEMOS_URL = ''http://memos'', MEMOS_TOKEN = Some ''secret'',
           CUTOFF_DATE = ''2025-12-26T00:00:00Z'', DRY_RUN = False, MAX_SCROLLS = 2\<rparr>"

definition dry :: config where
  "dry = live\<lparr>DRY_RUN := True\<rparr>"

definition memoE :: memo where
  "memoE = \<lparr>name = ''memos/E'', memo_id = None, uid = None, content = Some ''old'',
            createTime = None, createdTs = Some 1704103200\<rparr>"

definition memoM :: memo where
  "memoM = \<lparr>name = ''memos/M'', memo_id = None, uid = None, content = Some ''undated'',
            createTime = None, createdTs = None\<rparr>"

definition memoU :: memo where
  "memoU = \<lparr>name = ''memos/U'', memo_id = None, uid = None, content = Some ''garbled'',
            createTime = Some ''yesterday'', createdTs = None\<rparr>"

definition memoX :: memo where
  "memoX = \<lparr>name = ''memos/X'', memo_id = None, uid = None, content = Some [],
            createTime = Some ''2024-01-01T10:00:00Z'', createdTs = None\<rparr>"

definition memoY :: memo where
  "memoY = \<lparr>name = ''memos/Y'', memo_id = None, uid = None, content = Some [],
            createTime = Some ''2024-01-01T12:00:00Z'', createdTs = None\<rparr>"

definition tweet1 :: tweet where
  "tweet1 = \<lparr>texts = [''hello''], time_attr = Some ''2024-01-01T10:00:00.000Z'',
             image_srcs = [], has_video = False, status_href = Some ''/u/status/1''\<rparr>"

definition tweet2 :: tweet where
  "tweet2 = \<lparr>texts = [''world''], time_attr = Some ''2024-01-02T10:00:00.000Z'',
             image_srcs = [], has_video = False, status_href = Some ''/u/status/2''\<rparr>"

text \<open>
  A service that creates every memo as \<^verbatim>\<open>memos/1\<close> and answers 500 to every other
  request of a run in which creation requests are the events 0 and 4; and a page that
  shows the first tweet, then both.
\<close>

definition world1 :: world where
  "world1 = \<lparr>http = (\<lambda>i. if i = 0 \<or> i = 4 then Response 200 (Some (Some ''memos/1''))
                       else Response 500 None),
             ytdlp = (\<lambda>i. False),
             visible = (\<lambda>i. if i = 0 then [Some tweet1] else [Some tweet1, None, Some tweet2]),
             logged_in = True, tweets_loaded = True\<rparr>"

definition undated_page :: page where
  "undated_page = \<lparr>memos = [memoA, memoU, memoM], nextPageToken = None\<rparr>"

definition epoch_page :: page where
  "epoch_page = \<lparr>memos = [memoE, memoA], nextPageToken = None\<rparr>"

text \<open>Two copies of one note, the first written at 18:00 UTC with an offset of five hours.\<close>

definition memoS1 :: memo where
  "memoS1 = \<lparr>name = ''memos/S1'', memo_id = None, uid = None, content = Some ''dup'',
             createTime = Some ''2024-01-01T23:00:00+05:00'', createdTs = None\<rparr>"

definition memoS2 :: memo where
  "memoS2 = \<lparr>name = ''memos/S2'', memo_id = None, uid = None, content = Some ''dup'',
             createTime = Some ''2024-01-01T20:00:00Z'', createdTs = None\<rparr>"

section \<open>Pagination\<close>

lemma fetch_failed_id: "fetch_failed xs = xs"
  by (simp add: fetch_failed_def)

lemma fetch_loop_stops:
  assumes "\<forall>p\<in>set ps. memos p \<noteq> [] \<and> truthy (nextPageToken p)"
    and "r = ConnectionError \<or> (\<exists>s b. r = Response s b \<and> raises_for_status s)"
  shows "fetch_loop (map ok ps @ r # rest) all_memos tok tr =
    Some (all_memos @ concat (map memos ps),
          tr @ map HttpGet ((if truthy tok then tok else None) # map nextPageToken ps))"
  using assms
proof (induction ps arbitrary: all_memos tok tr)
  case Nil
  then show ?case
    by (cases r) (auto simp: fetch_failed_id Let_def)
next
  case (Cons p ps)
  then show ?case
    by (simp add: ok_def raises_for_status_def Let_def)
qed

lemma get_loop_stops:
  assumes "\<forall>p\<in>set ps. truthy (nextPageToken p)"
    and "r = ConnectionError \<or> (\<exists>s b. r = Response s b \<and> s \<noteq> 200)"
  shows "get_loop (map ok ps @ r # rest) all_memos tok tr =
    Some (all_memos @ concat (map memos ps),
          tr @ map HttpGet ((if truthy tok then tok else None) # map nextPageToken ps))"
  using assms
proof (induction ps arbitrary: all_memos tok tr)
  case Nil
  then show ?case
    by (cases r) (auto simp: Let_def)
next
  case (Cons p ps)
  then show ?case
    by (simp add: ok_def Let_def)
qed

text \<open>
  Claim C6. Let pages \<open>ps\<close> be answered normally, each with records and a next token, and
  let the following page request be answered with an HTTP error status \<open>s\<close> (400 to 599,
  status 400 included). Then both fetchers return, with exactly the records of \<open>ps\<close> in
  fetch order; the requests issued are those for \<open>ps\<close> and the one that failed, so the
  failed request is not repeated and the answers after it (\<open>rest\<close>) are never asked for.
\<close>

theorem http_error_ends_pagination:
  assumes "\<forall>p\<in>set ps. memos p \<noteq> [] \<and> truthy (nextPageToken p)"
    and "raises_for_status s"
  shows "fetch_all_memos (map ok ps @ Response s b # rest) =
           Some (concat (map memos ps), page_requests ps)
       \<and> get_all_memos (map ok ps @ Response s b # rest) =
           Some (concat (map memos ps), page_requests ps)
       \<and> length (page_requests ps) = Suc (length ps)"
proof -
  have ne: "s \<noteq> 200"
    using assms(2) by (auto simp: raises_for_status_def)
  have "fetch_loop (map ok ps @ Response s b # rest) [] None [] =
          Some ([] @ concat (map memos ps),
                [] @ map HttpGet ((if truthy None then None else None) # map nextPageToken ps))"
    by (rule fetch_loop_stops) (use assms in auto)
  moreover have "get_loop (map ok ps @ Response s b # rest) [] None [] =
          Some ([] @ concat (map memos ps),
                [] @ map HttpGet ((if truthy None then None else None) # map nextPageToken ps))"
    by (rule get_loop_stops) (use assms ne in auto)
  ultimately show ?thesis
    by (simp add: fetch_all_memos_def get_all_memos_def page_requests_def)
qed

theorem http_error_ends_pagination_witness:
  "fetch_all_memos [ok page1, Response 400 None, ok page1] =
     Some ([memoA, memoB], [HttpGet None, HttpGet (Some ''t2'')])
   \<and> get_all_memos [ok page1, Response 400 None, ok page1] =
     Some ([memoA, memoB], [HttpGet None, HttpGet (Some ''t2'')])"
  using http_error_ends_pagination [of "[page1]" 400 None "[ok page1]"]
  by (simp add: page1_def raises_for_status_def page_requests_def)

text \<open>
  Claim C7. Let pages \<open>ps\<close> (at least one, each with records and a next token) be answered
  normally and let the following page request raise a network-level exception. Then both
  fetchers return the records of \<open>ps\<close>, and each script goes on to classify exactly that
  partial set: the duplicate cleaner groups it, the cutoff cleaner selects from it.
\<close>

theorem partial_fetch_is_classified:
  assumes "\<forall>p\<in>set ps. memos p \<noteq> [] \<and> truthy (nextPageToken p)"
    and "ps \<noteq> []"
    and "truthy (MEMOS_TOKEN cfg)"
    and "MEMOS_URL cfg \<noteq> []"
    and "fromisoformat L (replace_Z (CUTOFF_DATE cfg)) = Some cutoff_dt"
  shows "fetch_all_memos (map ok ps @ ConnectionError # rest) =
           Some (concat (map memos ps), page_requests ps)
       \<and> get_all_memos (map ok ps @ ConnectionError # rest) =
           Some (concat (map memos ps), page_requests ps)
       \<and> map_option classified
           (main_duplicates cfg md5 L (map ok ps @ ConnectionError # rest) answer reply) =
           Some (Some (find_duplicates md5 L (concat (map memos ps))))
       \<and> map_option classified (main_old cfg L (map ok ps @ ConnectionError # rest) reply) =
           Some (Some (select_memos L cutoff_dt (concat (map memos ps))))"
proof -
  have f: "fetch_all_memos (map ok ps @ ConnectionError # rest) =
           Some (concat (map memos ps), page_requests ps)"
    using fetch_loop_stops [of ps ConnectionError rest "[]" None "[]"] assms(1)
    by (simp add: fetch_all_memos_def page_requests_def)
  have g: "get_all_memos (map ok ps @ ConnectionError # rest) =
           Some (concat (map memos ps), page_requests ps)"
    using get_loop_stops [of ps ConnectionError rest "[]" None "[]"] assms(1)
    by (simp add: get_all_memos_def page_requests_def)
  have ne: "concat (map memos ps) \<noteq> []"
    using assms(1,2) by (cases ps) auto
  have d: "map_option classified
           (main_duplicates cfg md5 L (map ok ps @ ConnectionError # rest) answer reply) =
           Some (Some (find_duplicates md5 L (concat (map memos ps))))"
    using assms(3) ne by (simp add: main_duplicates_def f Let_def split: prod.splits)
  have e: "map_option classified (main_old cfg L (map ok ps @ ConnectionError # rest) reply) =
           Some (Some (select_memos L cutoff_dt (concat (map memos ps))))"
    using assms(3,4,5) ne by (simp add: main_old_def g Let_def split: prod.splits)
  from f g d e show ?thesis by simp
qed

theorem partial_fetch_is_classified_witness:
  "fetch_all_memos [ok page1, ConnectionError] =
     Some ([memoA, memoB], [HttpGet None, HttpGet (Some ''t2'')])
   \<and> map_option classified
       (main_duplicates live (\<lambda>s. s) example_lib [ok page1, ConnectionError] (Some ''no'')
          (\<lambda>i. Response 200 None)) =
     Some (Some (find_duplicates (\<lambda>s. s) example_lib [memoA, memoB]))
   \<and> map_option classified
       (main_old live example_lib [ok page1, ConnectionError] (\<lambda>i. Response 200 None)) =
     Some (Some (select_memos example_lib (Datetime 1766707200 (Some 0)) [memoA, memoB]))"
  using partial_fetch_is_classified [of "[page1]" live example_lib "Datetime 1766707200 (Some 0)"
      "[]" "\<lambda>s. s" "Some ''no''" "\<lambda>i. Response 200 None"]
  by (simp add: page1_def live_def example_lib_def replace_Z_def page_requests_def)

section \<open>Runs of the cutoff cleaner\<close>

lemma fetch_loop_gets:
  "fetch_loop rs all_memos tok tr = Some (ms, tr') \<Longrightarrow> set tr' \<subseteq> set tr \<union> range HttpGet"
proof (induction rs arbitrary: all_memos tok tr)
  case Nil
  then show ?case by simp
next
  case (Cons r rs)
  show ?case
  proof (cases r)
    case ConnectionError
    with Cons.prems show ?thesis by (auto simp: Let_def)
  next
    case (Response s body)
    show ?thesis
    proof (cases "\<not> raises_for_status s \<and> (\<exists>d. body = Some d \<and> memos d \<noteq> [] \<and> truthy (nextPageToken d))")
      case True
      then obtain d where d: "body = Some d" "memos d \<noteq> []" "truthy (nextPageToken d)" "\<not> raises_for_status s"
        by auto
      with Cons.prems Response
      have "fetch_loop rs (all_memos @ memos d) (nextPageToken d)
              (tr @ [HttpGet (if truthy tok then tok else None)]) = Some (ms, tr')"
        by (simp add: Let_def)
      from Cons.IH [OF this] show ?thesis by auto
    next
      case False
      with Cons.prems Response show ?thesis
        by (auto simp: Let_def split: if_splits option.splits)
    qed
  qed
qed

lemma get_loop_gets:
  "get_loop rs all_memos tok tr = Some (ms, tr') \<Longrightarrow> set tr' \<subseteq> set tr \<union> range HttpGet"
proof (induction rs arbitrary: all_memos tok tr)
  case Nil
  then show ?case by simp
next
  case (Cons r rs)
  show ?case
  proof (cases r)
    case ConnectionError
    with Cons.prems show ?thesis by (auto simp: Let_def)
  next
    case (Response s body)
    show ?thesis
    proof (cases "s = 200 \<and> (\<exists>d. body = Some d \<and> truthy (nextPageToken d))")
      case True
      then obtain d where d: "body = Some d" "truthy (nextPageToken d)" "s = 200"
        by auto
      with Cons.prems Response
      have "get_loop rs (all_memos @ memos d) (nextPageToken d)
              (tr @ [HttpGet (if truthy tok then tok else None)]) = Some (ms, tr')"
        by (simp add: Let_def)
      from Cons.IH [OF this] show ?thesis by auto
    next
      case False
      with Cons.prems Response show ?thesis
        by (auto simp: Let_def split: if_splits option.splits)
    qed
  qed
qed

lemma delete_entries_dry:
  "delete_entries True url reply es (tr, d, f) = (tr, d + length es, f)"
  by (induction es arbitrary: d) auto

lemma delete_entries_live:
  "fst (delete_entries False url reply es st) =
     fst st @ map (\<lambda>e. HttpDelete (delete_url url e)) es"
proof (induction es arbitrary: st)
  case Nil
  then show ?case by simp
next
  case (Cons e es)
  obtain tr d f where st: "st = (tr, d, f)" by (cases st) auto
  show ?case
    unfolding st by (simp add: Cons.IH)
qed

text \<open>
  The events of a whole run of the cutoff cleaner, once the fetch has returned: nothing
  when the configuration is incomplete or the cutoff does not parse; otherwise the page
  requests, followed in live mode by one delete request for each selected memo, in order.
\<close>

lemma main_old_events:
  assumes "get_all_memos responses = Some (fetched, tr)"
  shows "map_option events (main_old cfg L responses reply) =
     Some (case (if MEMOS_URL cfg \<noteq> [] \<and> truthy (MEMOS_TOKEN cfg)
                 then fromisoformat L (replace_Z (CUTOFF_DATE cfg)) else None) of
             None \<Rightarrow> []
           | Some c \<Rightarrow>
               tr @ (if DRY_RUN cfg then []
                     else map (\<lambda>e. HttpDelete (delete_url (MEMOS_URL cfg) e))
                            (select_memos L c fetched)))"
proof (cases "MEMOS_URL cfg \<noteq> [] \<and> truthy (MEMOS_TOKEN cfg)")
  case False
  then show ?thesis by (auto simp: main_old_def)
next
  case ok: True
  show ?thesis
  proof (cases "fromisoformat L (replace_Z (CUTOFF_DATE cfg))")
    case None
    with ok show ?thesis by (simp add: main_old_def)
  next
    case (Some c)
    define es where "es = select_memos L c fetched"
    obtain tr' d f where de: "delete_entries (DRY_RUN cfg) (MEMOS_URL cfg) reply es (tr, 0, 0) = (tr', d, f)"
      by (cases "delete_entries (DRY_RUN cfg) (MEMOS_URL cfg) reply es (tr, 0, 0)") auto
    have tr': "tr' = tr @ (if DRY_RUN cfg then []
        else map (\<lambda>e. HttpDelete (delete_url (MEMOS_URL cfg) e)) es)"
    proof (cases "DRY_RUN cfg")
      case True
      with de show ?thesis by (simp add: delete_entries_dry)
    next
      case False
      with de delete_entries_live [of "MEMOS_URL cfg" reply es "(tr, 0, 0)"]
      show ?thesis by simp
    qed
    have sel: "fetched = [] \<Longrightarrow> es = []"
      by (simp add: es_def)
    show ?thesis
    proof (cases "fetched = [] \<or> es = []")
      case True
      with ok Some assms sel show ?thesis
        by (auto simp: main_old_def Let_def es_def [symmetric])
    next
      case False
      with ok Some assms de tr' show ?thesis
        by (simp add: main_old_def Let_def es_def [symmetric])
    qed
  qed
qed

section \<open>Cutoff policy\<close>


lemma select_memos_append:
  "select_memos L c (xs @ ys) = select_memos L c xs @ select_memos L c ys"
  by (induction xs) (auto split: action.splits)

lemma select_memos_Skip:
  "classify L c m = Skip \<Longrightarrow>
   select_memos L c (xs @ m # ys) = select_memos L c xs @ select_memos L c ys"
  by (simp add: select_memos_append)

lemma classify_createdAt:
  "classify L c m =
     (case createdAt L m of
        None \<Rightarrow> Skip
      | Some d \<Rightarrow> (case dt_less d c of Inl e \<Rightarrow> Skip | Inr b \<Rightarrow> if b then Delete else Skip))"
  by (simp add: classify_def createdAt_def)

text \<open>
  Claim C4. A record whose timestamp is missing, or whose timestamp cannot be converted,
  is classified \<open>Skip\<close> whatever the cutoff is, and it adds nothing to the list of memos
  to delete wherever it stands among the fetched records. It is never deleted: whenever
  the fetch returns a list that holds it, the events of the whole run are the page
  requests followed, in live mode, by the delete requests for the memos selected from the
  records before it and after it, and by nothing else (and the run has no events at all
  when the configuration is incomplete or the cutoff does not parse).
\<close>

theorem missing_timestamp_is_skipped:
  assumes "createdAt L m = None"
  shows "classify L cutoff_dt m = Skip
       \<and> select_memos L cutoff_dt (before @ m # after) =
           select_memos L cutoff_dt before @ select_memos L cutoff_dt after
       \<and> (get_all_memos responses = Some (before @ m # after, tr) \<longrightarrow>
            set tr \<subseteq> range HttpGet
            \<and> map_option events (main_old cfg L responses reply) =
                Some (case (if MEMOS_URL cfg \<noteq> [] \<and> truthy (MEMOS_TOKEN cfg)
                            then fromisoformat L (replace_Z (CUTOFF_DATE cfg)) else None) of
                        None \<Rightarrow> []
                      | Some c \<Rightarrow>
                          tr @ (if DRY_RUN cfg then []
                                else map (\<lambda>e. HttpDelete (delete_url (MEMOS_URL cfg) e))
                                       (select_memos L c before @ select_memos L c after))))"
proof -
  have skip: "classify L c m = Skip" for c
    using assms by (simp add: classify_createdAt)
  have sel: "select_memos L c (before @ m # after) =
      select_memos L c before @ select_memos L c after" for c
    by (simp add: skip select_memos_Skip)
  have run: "set tr \<subseteq> range HttpGet
      \<and> map_option events (main_old cfg L responses reply) =
          Some (case (if MEMOS_URL cfg \<noteq> [] \<and> truthy (MEMOS_TOKEN cfg)
                      then fromisoformat L (replace_Z (CUTOFF_DATE cfg)) else None) of
                  None \<Rightarrow> []
                | Some c \<Rightarrow>
                    tr @ (if DRY_RUN cfg then []
                          else map (\<lambda>e. HttpDelete (delete_url (MEMOS_URL cfg) e))
                                 (select_memos L c before @ select_memos L c after)))"
    if g: "get_all_memos responses = Some (before @ m # after, tr)"
  proof -
    have "set tr \<subseteq> range HttpGet"
      using get_loop_gets [of responses "[]" None "[]" "before @ m # after" tr] g
      by (simp add: get_all_memos_def)
    moreover have "map_option events (main_old cfg L responses reply) =
          Some (case (if MEMOS_URL cfg \<noteq> [] \<and> truthy (MEMOS_TOKEN cfg)
                      then fromisoformat L (replace_Z (CUTOFF_DATE cfg)) else None) of
                  None \<Rightarrow> []
                | Some c \<Rightarrow>
                    tr @ (if DRY_RUN cfg then []
                          else map (\<lambda>e. HttpDelete (delete_url (MEMOS_URL cfg) e))
                                 (select_memos L c before @ select_memos L c after)))"
      using main_old_events [OF g, of cfg L reply] by (simp only: sel)
    ultimately show ?thesis by (rule conjI)
  qed
  from skip [of cutoff_dt] sel [of cutoff_dt] run show ?thesis by blast
qed

theorem missing_timestamp_is_skipped_witness:
  "createdAt example_lib memoM = None \<and> createdAt example_lib memoU = None
   \<and> classify example_lib (Datetime 1766707200 (Some 0)) memoM = Skip
   \<and> classify example_lib (Datetime 1766707200 (Some 0)) memoU = Skip
   \<and> get_all_memos [ok undated_page] = Some ([memoA, memoU, memoM], [HttpGet None])
   \<and> map_option events (main_old live example_lib [ok undated_page] (\<lambda>i. Response 200 None)) =
       Some [HttpGet None, HttpDelete ''http://memos/api/v1/memos/A'']"
proof -
  have m: "createdAt example_lib memoM = None"
    by (simp add: createdAt_def create_time_of_def memoM_def)
  have u: "createdAt example_lib memoU = None"
    by (simp add: createdAt_def create_time_of_def memoU_def example_lib_def replace_Z_def)
  have g: "get_all_memos [ok undated_page] = Some ([memoA] @ memoU # [memoM], [HttpGet None])"
    by (simp add: get_all_memos_def ok_def undated_page_def Let_def)
  have c: "(if MEMOS_URL live \<noteq> [] \<and> truthy (MEMOS_TOKEN live)
            then fromisoformat example_lib (replace_Z (CUTOFF_DATE live)) else None) =
           Some (Datetime 1766707200 (Some 0))"
    by (simp add: live_def replace_Z_def example_lib_def)
  have a: "select_memos example_lib (Datetime 1766707200 (Some 0)) [memoA] =
           [make_entry example_lib memoA]"
    by (simp add: classify_def create_time_of_def replace_Z_def example_lib_def memoA_def)
  have d: "delete_url (MEMOS_URL live) (make_entry example_lib memoA) = ''http://memos/api/v1/memos/A''"
    by (simp add: delete_url_def make_entry_def live_def memoA_def)
  have l: "\<not> DRY_RUN live"
    by (simp add: live_def)
  note w1 = missing_timestamp_is_skipped [OF m, of "Datetime 1766707200 (Some 0)" "[]" "[]"
      "[]" "[]" live "\<lambda>i. ConnectionError"]
  note w2 = missing_timestamp_is_skipped [OF u, of "Datetime 1766707200 (Some 0)" "[memoA]" "[memoM]"
      "[ok undated_page]" "[HttpGet None]" live "\<lambda>i. Response 200 None"]
  from w1 have k1: "classify example_lib (Datetime 1766707200 (Some 0)) memoM = Skip"
    by blast
  from w2 have k2: "classify example_lib (Datetime 1766707200 (Some 0)) memoU = Skip"
    by blast
  from k1 have sm: "select_memos example_lib (Datetime 1766707200 (Some 0)) [memoM] = []"
    by simp
  from w2 g have "map_option events (main_old live example_lib [ok undated_page] (\<lambda>i. Response 200 None)) =
       Some (case (if MEMOS_URL live \<noteq> [] \<and> truthy (MEMOS_TOKEN live)
                            then fromisoformat example_lib (replace_Z (CUTOFF_DATE live)) else None) of
                        None \<Rightarrow> []
                      | Some c \<Rightarrow>
                          [HttpGet None] @ (if DRY_RUN live then []
                                else map (\<lambda>e. HttpDelete (delete_url (MEMOS_URL live) e))
                                       (select_memos example_lib c [memoA] @ select_memos example_lib c [memoM])))"
    by blast
  then have e: "map_option events (main_old live example_lib [ok undated_page] (\<lambda>i. Response 200 None)) =
       Some [HttpGet None, HttpDelete ''http://memos/api/v1/memos/A'']"
    unfolding c by (simp add: l a sm d del: select_memos.simps)
  from m u k1 k2 g e show ?thesis by simp
qed

text \<open>
  Claim C10. When the cutoff carries a UTC offset, a record whose timestamp is a numeric
  epoch (no usable \<^verbatim>\<open>createTime\<close> string, a \<^verbatim>\<open>createdTs\<close> number) is classified
  \<open>Skip\<close> and adds nothing to the list of memos to delete: either the conversion raises,
  or it yields a naive datetime whose comparison with the aware cutoff raises. It is never
  deleted: in a run with that cutoff whose fetch returns a list that holds the record, the
  events are the page requests followed, in live mode, by the delete requests for the
  memos selected from the records before it and after it, and by nothing else.
\<close>

theorem epoch_record_is_skipped:
  assumes "\<not> truthy (createTime m)" and "createdTs m = Some n"
    and "utcoffset cutoff_dt = Some off"
  shows "classify L cutoff_dt m = Skip
       \<and> select_memos L cutoff_dt (before @ m # after) =
           select_memos L cutoff_dt before @ select_memos L cutoff_dt after
       \<and> (MEMOS_URL cfg \<noteq> [] \<and> truthy (MEMOS_TOKEN cfg)
            \<and> fromisoformat L (replace_Z (CUTOFF_DATE cfg)) = Some cutoff_dt
            \<and> get_all_memos responses = Some (before @ m # after, tr) \<longrightarrow>
            set tr \<subseteq> range HttpGet
            \<and> map_option events (main_old cfg L responses reply) =
                Some (tr @ (if DRY_RUN cfg then []
                            else map (\<lambda>e. HttpDelete (delete_url (MEMOS_URL cfg) e))
                                   (select_memos L cutoff_dt before
                                    @ select_memos L cutoff_dt after))))"
proof -
  have ct: "create_time_of m = Some (TNum n)"
    using assms(1,2) by (simp add: create_time_of_def)
  obtain w where c: "cutoff_dt = Datetime w (Some off)"
    using assms(3) by (cases cutoff_dt) auto
  have skip: "classify L cutoff_dt m = Skip"
    by (auto simp: classify_def ct c fromtimestamp_def split: option.splits sum.splits)
  then have sel: "select_memos L cutoff_dt (before @ m # after) =
      select_memos L cutoff_dt before @ select_memos L cutoff_dt after"
    by (simp add: select_memos_Skip)
  have run: "set tr \<subseteq> range HttpGet
      \<and> map_option events (main_old cfg L responses reply) =
          Some (tr @ (if DRY_RUN cfg then []
                      else map (\<lambda>e. HttpDelete (delete_url (MEMOS_URL cfg) e))
                             (select_memos L cutoff_dt before @ select_memos L cutoff_dt after)))"
    if ok: "MEMOS_URL cfg \<noteq> [] \<and> truthy (MEMOS_TOKEN cfg)"
      and p: "fromisoformat L (replace_Z (CUTOFF_DATE cfg)) = Some cutoff_dt"
      and g: "get_all_memos responses = Some (before @ m # after, tr)"
  proof -
    have "set tr \<subseteq> range HttpGet"
      using get_loop_gets [of responses "[]" None "[]" "before @ m # after" tr] g
      by (simp add: get_all_memos_def)
    moreover have "(if MEMOS_URL cfg \<noteq> [] \<and> truthy (MEMOS_TOKEN cfg)
                    then fromisoformat L (replace_Z (CUTOFF_DATE cfg)) else None) = Some cutoff_dt"
      using ok p by simp
    with main_old_events [OF g, of cfg L reply]
    have "map_option events (main_old cfg L responses reply) =
          Some (tr @ (if DRY_RUN cfg then []
                      else map (\<lambda>e. HttpDelete (delete_url (MEMOS_URL cfg) e))
                             (select_memos L cutoff_dt (before @ m # after))))"
      by (simp only: option.case)
    then have "map_option events (main_old cfg L responses reply) =
          Some (tr @ (if DRY_RUN cfg then []
                      else map (\<lambda>e. HttpDelete (delete_url (MEMOS_URL cfg) e))
                             (select_memos L cutoff_dt before @ select_memos L cutoff_dt after)))"
      by (simp only: sel)
    ultimately show ?thesis by (intro conjI)
  qed
  from skip sel run show ?thesis by blast
qed

theorem epoch_record_is_skipped_witness:
  "\<not> truthy (createTime memoE) \<and> createdTs memoE = Some 1704103200
   \<and> fromtimestamp example_lib 1704103200 = Some (Datetime 1704103200 None)
   \<and> classify example_lib (Datetime 1766707200 (Some 0)) memoE = Skip
   \<and> get_all_memos [ok epoch_page] = Some ([memoE, memoA], [HttpGet None])
   \<and> map_option events (main_old live example_lib [ok epoch_page] (\<lambda>i. Response 200 None)) =
       Some [HttpGet None, HttpDelete ''http://memos/api/v1/memos/A'']"
proof -
  have h: "\<not> truthy (createTime memoE) \<and> createdTs memoE = Some 1704103200"
    by (simp add: memoE_def)
  have f: "fromtimestamp example_lib 1704103200 = Some (Datetime 1704103200 None)"
    by (simp add: fromtimestamp_def example_lib_def)
  have g: "get_all_memos [ok epoch_page] = Some ([] @ memoE # [memoA], [HttpGet None])"
    by (simp add: get_all_memos_def ok_def epoch_page_def Let_def)
  have c: "MEMOS_URL live \<noteq> [] \<and> truthy (MEMOS_TOKEN live)
      \<and> fromisoformat example_lib (replace_Z (CUTOFF_DATE live)) = Some (Datetime 1766707200 (Some 0))"
    by (simp add: live_def replace_Z_def example_lib_def)
  have a: "select_memos example_lib (Datetime 1766707200 (Some 0)) [memoA] =
           [make_entry example_lib memoA]"
    by (simp add: classify_def create_time_of_def replace_Z_def example_lib_def memoA_def)
  have d: "delete_url (MEMOS_URL live) (make_entry example_lib memoA) = ''http://memos/api/v1/memos/A''"
    by (simp add: delete_url_def make_entry_def live_def memoA_def)
  have l: "\<not> DRY_RUN live"
    by (simp add: live_def)
  have o: "utcoffset (Datetime 1766707200 (Some 0)) = Some 0"
    by simp
  note w = epoch_record_is_skipped [of memoE 1704103200 "Datetime 1766707200 (Some 0)" 0
      example_lib "[]" "[memoA]" live "[ok epoch_page]" "[HttpGet None]" "\<lambda>i. Response 200 None"]
  from w h o have k: "classify example_lib (Datetime 1766707200 (Some 0)) memoE = Skip"
    by blast
  from w h o c g have "map_option events (main_old live example_lib [ok epoch_page] (\<lambda>i. Response 200 None)) =
       Some ([HttpGet None] @ (if DRY_RUN live then []
                            else map (\<lambda>e. HttpDelete (delete_url (MEMOS_URL live) e))
                                   (select_memos example_lib (Datetime 1766707200 (Some 0)) []
                                    @ select_memos example_lib (Datetime 1766707200 (Some 0)) [memoA])))"
    by blast
  then have e: "map_option events (main_old live example_lib [ok epoch_page] (\<lambda>i. Response 200 None)) =
       Some [HttpGet None, HttpDelete ''http://memos/api/v1/memos/A'']"
    by (simp add: l a d del: select_memos.simps(2))
  from h f k g e show ?thesis by simp
qed

text \<open>
  Claim C3, at the input where the code departs from it. The record carries the epoch
  timestamp 1704103200 (2024-01-01T10:00:00Z), which converts without error and lies
  before the default cutoff 2025-12-26T00:00:00Z; the cutoff cleaner classifies it \<open>Skip\<close>
  and the live run issues no delete request.
\<close>

theorem cutoff_main_skips_old_epoch_record:
  "createdAt example_lib memoE = Some (Datetime 1704103200 None)
   \<and> fromisoformat example_lib (replace_Z (CUTOFF_DATE live)) = Some (Datetime 1766707200 (Some 0))
   \<and> (1704103200 :: int) < 1766707200
   \<and> classify example_lib (Datetime 1766707200 (Some 0)) memoE = Skip
   \<and> main_old live example_lib [Response 200 (Some \<lparr>memos = [memoE], nextPageToken = None\<rparr>)]
        (\<lambda>i. Response 200 None) =
      Some \<lparr>events = [HttpGet None], classified = Some [], deleted_count = 0, failed_count = 0\<rparr>"
  by (simp add: createdAt_def create_time_of_def memoE_def fromtimestamp_def example_lib_def
      live_def replace_Z_def classify_def main_old_def get_all_memos_def Let_def)

text \<open>
  Claim C1, at the input where the code departs from it. In live mode, with one fetched
  record older than the cutoff, the cutoff cleaner issues the delete request straight
  after the fetch: the run contains no prompt at all.
\<close>

theorem cutoff_main_deletes_unconfirmed:
  "main_old live example_lib [Response 200 (Some \<lparr>memos = [memoA], nextPageToken = None\<rparr>)]
        (\<lambda>i. Response 200 None) =
      Some \<lparr>events = [HttpGet None, HttpDelete ''http://memos/api/v1/memos/A''],
            classified = Some [make_entry example_lib memoA], deleted_count = 1, failed_count = 0\<rparr>
   \<and> Input \<notin> set [HttpGet None, HttpDelete ''http://memos/api/v1/memos/A'']"
  by (simp add: create_time_of_def memoA_def example_lib_def delete_url_def make_entry_def
      live_def replace_Z_def classify_def main_old_def get_all_memos_def Let_def)


section \<open>Executors\<close>


lemma delete_each_dry:
  "delete_each True url reply ms (tr, d, f) = (tr, d + length ms, f)"
  by (induction ms arbitrary: d) auto

lemma delete_groups_dry:
  "delete_groups True url reply g (tr, d, f) = (tr, d + length (delete_targets g), f)"
  by (induction g arbitrary: d) (auto simp: delete_targets_def delete_each_dry)

text \<open>
  Claim C5. With the dry-run flag set, both executors leave the trace as it was (no
  request of any kind, no prompt) and count one deletion per planned record; a whole run
  of either script then consists of page requests only, and the count it reports is the
  number of records planned for deletion.
\<close>

theorem dry_run_issues_no_mutation:
  assumes "DRY_RUN cfg"
  shows "delete_duplicates cfg answer reply duplicates tr = (tr, length (delete_targets duplicates), 0)
       \<and> delete_entries (DRY_RUN cfg) (MEMOS_URL cfg) reply es (tr, 0, 0) = (tr, length es, 0)
       \<and> (\<forall>r. main_duplicates cfg md5 L responses answer reply = Some r \<longrightarrow>
            set (events r) \<subseteq> range HttpGet
            \<and> deleted_count r = (case classified r of None \<Rightarrow> 0 | Some d \<Rightarrow> length (delete_targets d)))
       \<and> (\<forall>r. main_old cfg L responses reply = Some r \<longrightarrow>
            set (events r) \<subseteq> range HttpGet
            \<and> deleted_count r = (case classified r of None \<Rightarrow> 0 | Some d \<Rightarrow> length d))"
proof -
  have dd: "delete_duplicates cfg answer reply dups t = (t, length (delete_targets dups), 0)" for dups t
    using assms by (simp add: delete_duplicates_def delete_groups_dry) (simp add: delete_targets_def)
  have de: "delete_entries (DRY_RUN cfg) (MEMOS_URL cfg) reply xs (t, 0, 0) = (t, length xs, 0)" for xs t
    using assms by (simp add: delete_entries_dry)
  have md: "set (events r) \<subseteq> range HttpGet
            \<and> deleted_count r = (case classified r of None \<Rightarrow> 0 | Some d \<Rightarrow> length (delete_targets d))"
    if "main_duplicates cfg md5 L responses answer reply = Some r" for r
  proof (cases "truthy (MEMOS_TOKEN cfg)")
    case False
    with that show ?thesis by (auto simp: main_duplicates_def)
  next
    case True
    with that obtain fetched t where f: "fetch_all_memos responses = Some (fetched, t)"
      by (auto simp: main_duplicates_def split: option.splits)
    then have "set t \<subseteq> range HttpGet"
      using fetch_loop_gets [of responses "[]" None "[]" fetched t]
      by (simp add: fetch_all_memos_def)
    moreover from that True f
    have "events r = t
      \<and> deleted_count r = (case classified r of None \<Rightarrow> 0 | Some d \<Rightarrow> length (delete_targets d))"
      by (auto simp: main_duplicates_def dd Let_def split: if_splits)
    ultimately show ?thesis by simp
  qed
  have mo: "set (events r) \<subseteq> range HttpGet
            \<and> deleted_count r = (case classified r of None \<Rightarrow> 0 | Some d \<Rightarrow> length d)"
    if "main_old cfg L responses reply = Some r" for r
  proof (cases "MEMOS_URL cfg \<noteq> [] \<and> truthy (MEMOS_TOKEN cfg)
                \<and> fromisoformat L (replace_Z (CUTOFF_DATE cfg)) \<noteq> None")
    case False
    with that show ?thesis by (auto simp: main_old_def split: option.splits)
  next
    case True
    with that obtain fetched t where f: "get_all_memos responses = Some (fetched, t)"
      by (auto simp: main_old_def split: option.splits)
    then have "set t \<subseteq> range HttpGet"
      using get_loop_gets [of responses "[]" None "[]" fetched t]
      by (simp add: get_all_memos_def)
    moreover from that True f
    have "events r = t
      \<and> deleted_count r = (case classified r of None \<Rightarrow> 0 | Some d \<Rightarrow> length d)"
      by (auto simp: main_old_def de Let_def split: if_splits)
    ultimately show ?thesis by simp
  qed
  from dd de md mo show ?thesis by blast
qed

lemma ex_find: "find_duplicates (\<lambda>s. s) example_lib [memoA, memoB, memoC] = [(''hi_2024-01-01'', [memoA, memoB])]"
  by (simp add: find_duplicates_def composite_key_def get_content_def get_createTime_def
     extract_date_def replace_Z_def example_lib_def memoA_def memoB_def memoC_def)

lemma ex_targets: "delete_targets [(''hi_2024-01-01'', [memoA, memoB])] = [memoB]"
  by (simp add: delete_targets_def get_createTime_def memoA_def memoB_def)


theorem dry_run_issues_no_mutation_witness:
  "DRY_RUN dry
   \<and> main_duplicates dry (\<lambda>s. s) example_lib [ok last_page] None (\<lambda>i. ConnectionError) =
       Some \<lparr>events = [HttpGet None], classified = Some [(''hi_2024-01-01'', [memoA, memoB])],
             deleted_count = 1, failed_count = 0\<rparr>
   \<and> main_old dry example_lib [ok last_page] (\<lambda>i. ConnectionError) =
       Some \<lparr>events = [HttpGet None],
             classified = Some [make_entry example_lib memoA, make_entry example_lib memoB,
                                make_entry example_lib memoC],
             deleted_count = 3, failed_count = 0\<rparr>
   \<and> delete_duplicates dry None (\<lambda>i. ConnectionError) [(''hi_2024-01-01'', [memoA, memoB])]
         [HttpGet None] = ([HttpGet None], 1, 0)"
proof -
  define es where "es = [make_entry example_lib memoA, make_entry example_lib memoB,
                         make_entry example_lib memoC]"
  have d: "DRY_RUN dry"
    by (simp add: dry_def live_def)
  have f: "fetch_all_memos [ok last_page] = Some ([memoA, memoB, memoC], [HttpGet None])"
    by (simp add: fetch_all_memos_def ok_def last_page_def raises_for_status_def Let_def)
  have g: "get_all_memos [ok last_page] = Some ([memoA, memoB, memoC], [HttpGet None])"
    by (simp add: get_all_memos_def ok_def last_page_def Let_def)
  have s: "select_memos example_lib (Datetime 1766707200 (Some 0)) [memoA, memoB, memoC] = es"
    by (simp add: es_def classify_def create_time_of_def replace_Z_def example_lib_def
        memoA_def memoB_def memoC_def)
  have c: "fromisoformat example_lib (replace_Z (CUTOFF_DATE dry)) = Some (Datetime 1766707200 (Some 0))"
    by (simp add: dry_def live_def replace_Z_def example_lib_def)
  have t: "truthy (MEMOS_TOKEN dry) \<and> MEMOS_URL dry \<noteq> []"
    by (simp add: dry_def live_def)
  have ne: "es \<noteq> []"
    by (simp add: es_def)
  note w = dry_run_issues_no_mutation [OF d, of None "\<lambda>i. ConnectionError"
      "[(''hi_2024-01-01'', [memoA, memoB])]" "[HttpGet None]" es "\<lambda>s. s" example_lib
      "[ok last_page]"]
  have dd: "delete_duplicates dry None (\<lambda>i. ConnectionError) [(''hi_2024-01-01'', [memoA, memoB])]
         [HttpGet None] = ([HttpGet None], 1, 0)"
    using w by (simp add: ex_targets)
  have de: "delete_entries (DRY_RUN dry) (MEMOS_URL dry) (\<lambda>i. ConnectionError) es
          ([HttpGet None], 0, 0) = ([HttpGet None], 3, 0)"
    using w by (simp add: es_def)
  have md: "main_duplicates dry (\<lambda>s. s) example_lib [ok last_page] None (\<lambda>i. ConnectionError) =
       Some \<lparr>events = [HttpGet None], classified = Some [(''hi_2024-01-01'', [memoA, memoB])],
             deleted_count = 1, failed_count = 0\<rparr>"
    using t by (simp add: main_duplicates_def f ex_find dd Let_def)
  have mo: "main_old dry example_lib [ok last_page] (\<lambda>i. ConnectionError) =
       Some \<lparr>events = [HttpGet None], classified = Some es, deleted_count = 3, failed_count = 0\<rparr>"
    using t ne by (simp add: main_old_def g c s de Let_def del: select_memos.simps)
  from d md mo dd show ?thesis by (simp add: es_def)
qed

text \<open>
  The duplicate cleaner in live mode: the prompt comes first, only delete requests follow
  it, and none follows when the answer is not \<^verbatim>\<open>yes\<close>.
\<close>

lemma delete_each_events:
  "\<exists>ds. fst (delete_each dry_run url reply ms st) = fst st @ ds \<and> set ds \<subseteq> range HttpDelete"
proof (induction ms arbitrary: st)
  case Nil
  then show ?case by simp
next
  case (Cons m ms)
  obtain tr d f where st: "st = (tr, d, f)" by (cases st) auto
  show ?case
  proof (cases dry_run)
    case True
    with Cons.IH [of "(tr, d + 1, f)"] st show ?thesis by simp
  next
    case False
    define e where "e = HttpDelete (url @ ''/api/v1/'' @ name m)"
    have "\<exists>d' f'. delete_each dry_run url reply (m # ms) st =
        delete_each dry_run url reply ms (tr @ [e], d', f')"
      using False st by (cases "reply (length tr)") (auto simp: e_def)
    then obtain d' f' where step: "delete_each dry_run url reply (m # ms) st =
        delete_each dry_run url reply ms (tr @ [e], d', f')"
      by blast
    from Cons.IH [of "(tr @ [e], d', f')"] obtain ds where
      "fst (delete_each dry_run url reply ms (tr @ [e], d', f')) = (tr @ [e]) @ ds"
      "set ds \<subseteq> range HttpDelete" by auto
    then have "fst (delete_each dry_run url reply (m # ms) st) = fst st @ (e # ds)
        \<and> set (e # ds) \<subseteq> range HttpDelete"
      using step st by (auto simp: e_def)
    then show ?thesis by blast
  qed
qed

lemma delete_groups_events:
  "\<exists>ds. fst (delete_groups dry_run url reply g st) = fst st @ ds \<and> set ds \<subseteq> range HttpDelete"
proof (induction g arbitrary: st)
  case Nil
  then show ?case by simp
next
  case (Cons kv g)
  obtain k ml where kv: "kv = (k, ml)" by (cases kv) auto
  define st' where "st' = delete_each dry_run url reply (tl (sort_key get_createTime ml)) st"
  from delete_each_events [of dry_run url reply "tl (sort_key get_createTime ml)" st]
  obtain ds1 where 1: "fst st' = fst st @ ds1" "set ds1 \<subseteq> range HttpDelete"
    by (auto simp: st'_def)
  from Cons.IH [of st'] obtain ds2 where
    2: "fst (delete_groups dry_run url reply g st') = fst st' @ ds2" "set ds2 \<subseteq> range HttpDelete"
    by auto
  have "fst (delete_groups dry_run url reply (kv # g) st) = fst st @ (ds1 @ ds2)
      \<and> set (ds1 @ ds2) \<subseteq> range HttpDelete"
    using 1 2 by (simp add: kv st'_def)
  then show ?case by blast
qed

lemma duplicates_cleaner_asks_first:
  assumes "\<not> DRY_RUN cfg" and "duplicates \<noteq> []"
  shows "\<exists>ds. fst (delete_duplicates cfg answer reply duplicates tr) = tr @ Input # ds
           \<and> set ds \<subseteq> range HttpDelete
           \<and> ((answer = None \<or> lower (the answer) \<noteq> ''yes'') \<longrightarrow> ds = [])"
proof (cases "answer = None \<or> lower (the answer) \<noteq> ''yes''")
  case True
  with assms have "fst (delete_duplicates cfg answer reply duplicates tr) = tr @ Input # []"
    by (auto simp: delete_duplicates_def split: option.splits)
  with True show ?thesis by (intro exI [of _ "[]"]) simp
next
  case False
  then obtain a where a: "answer = Some a" "lower a = ''yes''" by auto
  from delete_groups_events [of False "MEMOS_URL cfg" reply duplicates "(tr @ [Input], 0, 0)"]
  obtain ds where "fst (delete_groups False (MEMOS_URL cfg) reply duplicates (tr @ [Input], 0, 0)) =
      (tr @ [Input]) @ ds" "set ds \<subseteq> range HttpDelete" by auto
  with assms a False show ?thesis
    by (auto simp: delete_duplicates_def)
qed


section \<open>Duplicate policy\<close>



lemma append_group_keys:
  "map fst (append_group k m g) = (if k \<in> fst ` set g then map fst g else map fst g @ [k])"
  by (induction g) force+

lemma append_group_distinct:
  "distinct (map fst g) \<Longrightarrow> distinct (map fst (append_group k m g))"
  by (auto simp: append_group_keys)

lemma append_group_map_of:
  "map_of (append_group k m g) =
     (map_of g)(k \<mapsto> (case map_of g k of None \<Rightarrow> [] | Some ml \<Rightarrow> ml) @ [m])"
  by (induction g) (auto simp: fun_eq_iff)

lemma group_memos_distinct:
  "distinct (map fst g) \<Longrightarrow> distinct (map fst (group_memos md5 L ms g))"
  by (induction ms arbitrary: g) (auto simp: append_group_distinct)

lemma group_memos_map_of:
  "map_of (group_memos md5 L ms g) k =
     (if map_of g k = None \<and> members md5 L k ms = [] then None
      else Some ((case map_of g k of None \<Rightarrow> [] | Some ml \<Rightarrow> ml) @ members md5 L k ms))"
proof (induction ms arbitrary: g)
  case Nil
  then show ?case by (auto simp: members_def split: option.splits)
next
  case (Cons m ms)
  show ?case
  proof (cases "get_content m \<noteq> []")
    case False
    then show ?thesis using Cons.IH [of g] by (simp add: members_def)
  next
    case True
    then show ?thesis
      using Cons.IH [of "append_group (composite_key md5 L m) m g"]
      by (auto simp: members_def append_group_map_of split: option.splits)
  qed
qed

lemma find_duplicates_iff:
  "(k, g) \<in> set (find_duplicates md5 L ms) \<longleftrightarrow> g = members md5 L k ms \<and> 2 \<le> length g"
proof -
  have d: "distinct (map fst (group_memos md5 L ms []))"
    by (rule group_memos_distinct) simp
  have "(k, g) \<in> set (group_memos md5 L ms []) \<longleftrightarrow> map_of (group_memos md5 L ms []) k = Some g"
    using d by simp
  also have "\<dots> \<longleftrightarrow> g = members md5 L k ms \<and> g \<noteq> []"
    by (auto simp: group_memos_map_of)
  finally show ?thesis
    by (cases g) (auto simp: find_duplicates_def Suc_le_eq)
qed

lemma find_duplicates_distinct: "distinct (map fst (find_duplicates md5 L ms))"
proof -
  have "distinct (map fst (group_memos md5 L ms []))"
    by (rule group_memos_distinct) simp
  then show ?thesis
    unfolding find_duplicates_def by (rule distinct_map_filter)
qed

lemma hd_sort_key_least:
  assumes "g \<noteq> []"
  shows "hd (sort_key f g) \<in> set g"
    and "\<forall>x\<in>set g. f (hd (sort_key f g)) \<le> f x"
    and "hd (sort_key f g) = hd (filter (\<lambda>x. f x = f (hd (sort_key f g))) g)"
    and "mset (tl (sort_key f g)) = mset g - {#hd (sort_key f g)#}"
proof -
  obtain y ys where s: "sort_key f g = y # ys"
    using assms by (cases "sort_key f g") (auto dest: arg_cong [where f = length])
  have sg: "set g = set (y # ys)"
    using s set_sort [of f g] by simp
  then show "hd (sort_key f g) \<in> set g"
    using s sg by simp
  have "sorted (map f (y # ys))"
    using sorted_sort_key [of f g] s by simp
  then have "\<forall>x\<in>set (y # ys). f y \<le> f x"
    by auto
  then show "\<forall>x\<in>set g. f (hd (sort_key f g)) \<le> f x"
    using s sg by simp
  have "filter (\<lambda>x. f x = f y) g = filter (\<lambda>x. f x = f y) (y # ys)"
    using sort_key_stable [of f "f y" g] s by simp
  then show "hd (sort_key f g) = hd (filter (\<lambda>x. f x = f (hd (sort_key f g))) g)"
    using s by simp
  have "mset (y # ys) = mset g"
    using s mset_sort [of f g] by simp
  then show "mset (tl (sort_key f g)) = mset g - {#hd (sort_key f g)#}"
    using s by (simp flip: \<open>mset (y # ys) = mset g\<close>)
qed

lemma delete_targets_member:
  "x \<in> set (delete_targets dups) \<Longrightarrow> \<exists>(k, g)\<in>set dups. x \<in> set g"
proof -
  assume "x \<in> set (delete_targets dups)"
  then obtain k g where kg: "(k, g) \<in> set dups" "x \<in> set (tl (sort_key get_createTime g))"
    by (auto simp: delete_targets_def)
  from kg(2) have "x \<in> set (sort_key get_createTime g)"
    by (cases "sort_key get_createTime g") auto
  then have "x \<in> set g" by simp
  with kg(1) show ?thesis by blast
qed


lemma delete_each_live:
  "fst (delete_each False url reply ms st) =
     fst st @ map (\<lambda>m. HttpDelete (url @ ''/api/v1/'' @ name m)) ms"
proof (induction ms arbitrary: st)
  case Nil
  then show ?case by simp
next
  case (Cons m ms)
  obtain tr d f where st: "st = (tr, d, f)" by (cases st) auto
  show ?case
    unfolding st by (cases "reply (length tr)") (simp_all add: Cons.IH)
qed

lemma delete_groups_live:
  "fst (delete_groups False url reply g st) =
     fst st @ map (\<lambda>m. HttpDelete (url @ ''/api/v1/'' @ name m)) (delete_targets g)"
proof (induction g arbitrary: st)
  case Nil
  then show ?case by (simp add: delete_targets_def)
next
  case (Cons kv g)
  obtain k ml where kv: "kv = (k, ml)" by (cases kv) auto
  show ?case
    unfolding kv by (simp add: Cons.IH delete_each_live delete_targets_def)
qed

text \<open>
  Claim C2, as amended. The groups of \<^verbatim>\<open>find_duplicates\<close> are exactly the lists, in
  fetch order, of the fetched records with non-empty content that share a derived key,
  when there are at least two of them, one group per key. In such a group one member is
  kept and the records planned for deletion are all the other members. When the
  timestamps of the group order as strings the way their instants do, the record kept is
  one with the minimal \<^verbatim>\<open>createdAt\<close>, and among the members with that
  \<^verbatim>\<open>createdAt\<close> the first in fetch order. The planned deletions of a run are those of
  its groups, and the confirmed live run issues one delete request for each, in that
  order. A record whose derived key no other fetched record has is never planned for
  deletion.
\<close>

theorem duplicate_policy:
  "((k, g) \<in> set (find_duplicates md5 L ms) \<longleftrightarrow>
      g = filter (\<lambda>m. get_content m \<noteq> [] \<and> composite_key md5 L m = k) ms \<and> 2 \<le> length g)
   \<and> ((k, g) \<in> set (find_duplicates md5 L ms) \<longrightarrow>
        hd (sort_key get_createTime g) \<in> set g
        \<and> mset (tl (sort_key get_createTime g)) = mset g - {#hd (sort_key get_createTime g)#})
   \<and> ((k, g) \<in> set (find_duplicates md5 L ms) \<and> chronological L g \<longrightarrow>
        (\<forall>x\<in>set g. created_instant L (hd (sort_key get_createTime g)) \<le> created_instant L x)
        \<and> hd (sort_key get_createTime g) =
            hd (filter (\<lambda>x. created_instant L x =
                            created_instant L (hd (sort_key get_createTime g))) g))
   \<and> distinct (map fst (find_duplicates md5 L ms))
   \<and> delete_targets (find_duplicates md5 L ms) =
        concat (map (\<lambda>(k, g). tl (sort_key get_createTime g)) (find_duplicates md5 L ms))
   \<and> fst (delete_groups False url reply (find_duplicates md5 L ms) (tr, d, f)) =
        tr @ map (\<lambda>m. HttpDelete (url @ ''/api/v1/'' @ name m))
               (delete_targets (find_duplicates md5 L ms))
   \<and> (length (filter (\<lambda>x. composite_key md5 L x = composite_key md5 L m) ms) \<le> 1 \<longrightarrow>
        m \<notin> set (delete_targets (find_duplicates md5 L ms)))"
proof -
  define kept where "kept = hd (sort_key get_createTime g)"
  have 1: "(k, g) \<in> set (find_duplicates md5 L ms) \<longleftrightarrow>
      g = filter (\<lambda>m. get_content m \<noteq> [] \<and> composite_key md5 L m = k) ms \<and> 2 \<le> length g"
    using find_duplicates_iff [of k g md5 L ms] by (simp add: members_def)
  have ne: "g \<noteq> []" if "(k, g) \<in> set (find_duplicates md5 L ms)"
    using that 1 by auto
  have i2: "(k, g) \<in> set (find_duplicates md5 L ms) \<longrightarrow>
        hd (sort_key get_createTime g) \<in> set g
        \<and> mset (tl (sort_key get_createTime g)) = mset g - {#hd (sort_key get_createTime g)#}"
    using hd_sort_key_least(1,4) [OF ne, of get_createTime] by blast
  have c: "(\<forall>x\<in>set g. created_instant L kept \<le> created_instant L x)
        \<and> kept = hd (filter (\<lambda>x. created_instant L x = created_instant L kept) g)"
    if m: "(k, g) \<in> set (find_duplicates md5 L ms)" and ch: "chronological L g"
  proof -
    have agree: "(get_createTime x \<le> get_createTime y) =
        (created_instant L x \<le> created_instant L y)" if "x \<in> set g" "y \<in> set g" for x y
      using ch that by (auto simp: chronological_def list_all_iff)
    have k: "kept \<in> set g"
      using hd_sort_key_least(1) [OF ne [OF m], of get_createTime] by (simp add: kept_def)
    have least: "\<forall>x\<in>set g. get_createTime kept \<le> get_createTime x"
      using hd_sort_key_least(2) [OF ne [OF m], of get_createTime] by (simp add: kept_def)
    have first: "kept = hd (filter (\<lambda>x. get_createTime x = get_createTime kept) g)"
      using hd_sort_key_least(3) [OF ne [OF m], of get_createTime] by (simp add: kept_def)
    have a: "\<forall>x\<in>set g. created_instant L kept \<le> created_instant L x"
      using least agree k by blast
    have "(created_instant L x = created_instant L kept) =
        (get_createTime x = get_createTime kept)" if "x \<in> set g" for x
    proof -
      have "(created_instant L x = created_instant L kept) =
          (created_instant L x \<le> created_instant L kept \<and> created_instant L kept \<le> created_instant L x)"
        by auto
      also have "\<dots> = (get_createTime x \<le> get_createTime kept \<and> get_createTime kept \<le> get_createTime x)"
        using agree [OF that k] agree [OF k that] by simp
      also have "\<dots> = (get_createTime x = get_createTime kept)"
        by auto
      finally show ?thesis .
    qed
    then have "filter (\<lambda>x. created_instant L x = created_instant L kept) g =
        filter (\<lambda>x. get_createTime x = get_createTime kept) g"
      by (intro filter_cong) auto
    with first a show ?thesis by simp
  qed
  then have i2c: "(k, g) \<in> set (find_duplicates md5 L ms) \<and> chronological L g \<longrightarrow>
        (\<forall>x\<in>set g. created_instant L (hd (sort_key get_createTime g)) \<le> created_instant L x)
        \<and> hd (sort_key get_createTime g) =
            hd (filter (\<lambda>x. created_instant L x =
                            created_instant L (hd (sort_key get_createTime g))) g)"
    unfolding kept_def by blast
  have 3: "m \<notin> set (delete_targets (find_duplicates md5 L ms))"
    if le: "length (filter (\<lambda>x. composite_key md5 L x = composite_key md5 L m) ms) \<le> 1"
  proof
    assume "m \<in> set (delete_targets (find_duplicates md5 L ms))"
    then obtain k' g' where kg: "(k', g') \<in> set (find_duplicates md5 L ms)" "m \<in> set g'"
      using delete_targets_member by blast
    then have g': "g' = members md5 L k' ms" "2 \<le> length g'"
      using find_duplicates_iff [of k' g' md5 L ms] by blast+
    with kg(2) have "composite_key md5 L m = k'"
      by (simp add: members_def)
    then have "members md5 L k' ms =
        filter (\<lambda>x. get_content x \<noteq> []) (filter (\<lambda>x. composite_key md5 L x = composite_key md5 L m) ms)"
      by (auto simp: members_def intro: filter_cong)
    then have "length g' \<le> length (filter (\<lambda>x. composite_key md5 L x = composite_key md5 L m) ms)"
      using g'(1) by (metis length_filter_le)
    with le g'(2) show False by simp
  qed
  from 3 have i3: "length (filter (\<lambda>x. composite_key md5 L x = composite_key md5 L m) ms) \<le> 1 \<longrightarrow>
        m \<notin> set (delete_targets (find_duplicates md5 L ms))"
    by (rule impI)
  have 4: "distinct (map fst (find_duplicates md5 L ms))"
    by (rule find_duplicates_distinct)
  have 5: "delete_targets (find_duplicates md5 L ms) =
        concat (map (\<lambda>(k, g). tl (sort_key get_createTime g)) (find_duplicates md5 L ms))"
    by (simp add: delete_targets_def)
  have 6: "fst (delete_groups False url reply (find_duplicates md5 L ms) (tr, d, f)) =
        tr @ map (\<lambda>m. HttpDelete (url @ ''/api/v1/'' @ name m))
               (delete_targets (find_duplicates md5 L ms))"
    using delete_groups_live [of url reply "find_duplicates md5 L ms" "(tr, d, f)"] by simp
  show ?thesis
    by (rule conjI [OF 1 conjI [OF i2 conjI [OF i2c conjI [OF 4 conjI [OF 5 conjI [OF 6 i3]]]]]])
qed

theorem duplicate_policy_witness:
  "(''hi_2024-01-01'', [memoA, memoB]) \<in> set (find_duplicates (\<lambda>s. s) example_lib [memoA, memoB, memoC])
   \<and> chronological example_lib [memoA, memoB]
   \<and> hd (sort_key get_createTime [memoA, memoB]) = memoA
   \<and> created_instant example_lib memoA = Some 1704103200
   \<and> created_instant example_lib memoB = Some 1704110400
   \<and> created_instant example_lib memoA \<le> created_instant example_lib memoB
   \<and> mset (tl (sort_key get_createTime [memoA, memoB])) = {#memoB#}
   \<and> delete_targets (find_duplicates (\<lambda>s. s) example_lib [memoA, memoB, memoC]) = [memoB]
   \<and> length (filter (\<lambda>x. composite_key (\<lambda>s. s) example_lib x =
                           composite_key (\<lambda>s. s) example_lib memoC) [memoA, memoB, memoC]) \<le> 1
   \<and> memoC \<notin> set (delete_targets (find_duplicates (\<lambda>s. s) example_lib [memoA, memoB, memoC]))"
proof -
  have s: "sort_key get_createTime [memoA, memoB] = [memoA, memoB]"
    by (simp add: get_createTime_def memoA_def memoB_def)
  have l: "length (filter (\<lambda>x. composite_key (\<lambda>s. s) example_lib x =
                           composite_key (\<lambda>s. s) example_lib memoC) [memoA, memoB, memoC]) \<le> 1"
    by (simp add: composite_key_def get_content_def memoA_def memoB_def memoC_def)
  have e: "(''hi_2024-01-01'', [memoA, memoB]) \<in> set (find_duplicates (\<lambda>s. s) example_lib [memoA, memoB, memoC])"
    by (simp add: ex_find)
  have ia: "created_instant example_lib memoA = Some 1704103200"
    by (simp add: created_instant_def get_createTime_def replace_Z_def example_lib_def memoA_def)
  have ib: "created_instant example_lib memoB = Some 1704110400"
    by (simp add: created_instant_def get_createTime_def replace_Z_def example_lib_def memoB_def)
  have ta: "get_createTime memoA = ''2024-01-01T10:00:00Z''"
    by (simp add: get_createTime_def memoA_def)
  have tb: "get_createTime memoB = ''2024-01-01T12:00:00Z''"
    by (simp add: get_createTime_def memoB_def)
  have ch: "chronological example_lib [memoA, memoB]"
    by (simp add: chronological_def ia ib ta tb)
  note w = duplicate_policy [of "''hi_2024-01-01''" "[memoA, memoB]" "\<lambda>s. s" example_lib
        "[memoA, memoB, memoC]" "[]" "\<lambda>i. ConnectionError" "[]" 0 0 memoC]
  from w l have c: "memoC \<notin> set (delete_targets (find_duplicates (\<lambda>s. s) example_lib [memoA, memoB, memoC]))"
    by blast
  have h: "hd (sort_key get_createTime [memoA, memoB]) = memoA"
    unfolding s by simp
  from w e ch have "\<forall>x\<in>set [memoA, memoB].
      created_instant example_lib (hd (sort_key get_createTime [memoA, memoB])) \<le> created_instant example_lib x"
    by blast
  then have mn: "created_instant example_lib memoA \<le> created_instant example_lib memoB"
    unfolding h by simp
  have t: "mset (tl (sort_key get_createTime [memoA, memoB])) = {#memoB#}"
    unfolding s by simp
  have d: "delete_targets (find_duplicates (\<lambda>s. s) example_lib [memoA, memoB, memoC]) = [memoB]"
    by (simp only: ex_find ex_targets)
  from e ch h ia ib mn t d l c show ?thesis by blast
qed

text \<open>
  Claim C2 as stated fails twice. Two records with empty content share their derived key,
  yet they form no group and neither is planned for deletion. And of two copies of one
  note whose timestamps carry different offsets, the one planned for deletion is the one
  created first.
\<close>

theorem duplicate_policy_counterexample:
  "composite_key (\<lambda>s. s) example_lib memoX = composite_key (\<lambda>s. s) example_lib memoY
   \<and> memoX \<noteq> memoY
   \<and> find_duplicates (\<lambda>s. s) example_lib [memoX, memoY] = []
   \<and> delete_targets (find_duplicates (\<lambda>s. s) example_lib [memoX, memoY]) = []
   \<and> find_duplicates (\<lambda>s. s) example_lib [memoS1, memoS2] = [(''dup_2024-01-01'', [memoS1, memoS2])]
   \<and> created_instant example_lib memoS1 = Some 1704132000
   \<and> created_instant example_lib memoS2 = Some 1704139200
   \<and> delete_targets (find_duplicates (\<lambda>s. s) example_lib [memoS1, memoS2]) = [memoS1]"
proof -
  have k: "composite_key (\<lambda>s. s) example_lib memoX = composite_key (\<lambda>s. s) example_lib memoY"
    by (simp add: composite_key_def get_content_def get_createTime_def extract_date_def
        replace_Z_def example_lib_def memoX_def memoY_def)
  have n: "memoX \<noteq> memoY"
    by (simp add: memoX_def memoY_def)
  have c: "get_content memoX = [] \<and> get_content memoY = []"
    by (simp add: get_content_def memoX_def memoY_def)
  have f: "find_duplicates (\<lambda>s. s) example_lib [memoX, memoY] = []"
    by (simp add: find_duplicates_def c)
  have k1: "composite_key (\<lambda>s. s) example_lib memoS1 = ''dup_2024-01-01''
      \<and> get_content memoS1 \<noteq> []"
    by (simp add: composite_key_def get_content_def get_createTime_def extract_date_def
        replace_Z_def example_lib_def memoS1_def)
  have k2: "composite_key (\<lambda>s. s) example_lib memoS2 = ''dup_2024-01-01''
      \<and> get_content memoS2 \<noteq> []"
    by (simp add: composite_key_def get_content_def get_createTime_def extract_date_def
        replace_Z_def example_lib_def memoS2_def)
  have g: "find_duplicates (\<lambda>s. s) example_lib [memoS1, memoS2] = [(''dup_2024-01-01'', [memoS1, memoS2])]"
    by (simp add: find_duplicates_def k1 k2)
  have i1: "created_instant example_lib memoS1 = Some 1704132000"
    by (simp add: created_instant_def get_createTime_def replace_Z_def example_lib_def memoS1_def)
  have i2: "created_instant example_lib memoS2 = Some 1704139200"
    by (simp add: created_instant_def get_createTime_def replace_Z_def example_lib_def memoS2_def)
  have s: "sort_key get_createTime [memoS1, memoS2] = [memoS2, memoS1]"
    by (simp add: get_createTime_def memoS1_def memoS2_def)
  have t: "delete_targets [(''dup_2024-01-01'', [memoS1, memoS2])] = [memoS1]"
    unfolding delete_targets_def by (simp add: s del: sort_key_simps)
  from k n f g i1 i2 t show ?thesis
    by (simp add: delete_targets_def)
qed

section \<open>Ingestion\<close>


lemma upload_image_events:
  "\<exists>es. snd (upload_image_to_memos W u n tr) = tr @ es \<and> list_all media_event es"
  by (auto simp: upload_image_to_memos_def Let_def split: response.splits option.splits)

lemma upload_images_events:
  "\<exists>es. upload_images W imgs n tr = tr @ es \<and> list_all media_event es"
proof (induction imgs arbitrary: tr)
  case Nil
  then show ?case by simp
next
  case (Cons u imgs)
  obtain a tr1 where u: "upload_image_to_memos W u n tr = (a, tr1)"
    by (cases "upload_image_to_memos W u n tr") auto
  from upload_image_events [of W u n tr] u obtain es1 where
    1: "tr1 = tr @ es1" "list_all media_event es1" by auto
  define tr2 where "tr2 = (if truthy a then tr1 @ [Print ''Attached'' [str_opt a]] else tr1)"
  then obtain es2 where 2: "tr2 = tr @ es2" "list_all media_event es2"
    using 1 by (cases "truthy a") auto
  from Cons.IH [of tr2] obtain es3 where
    3: "upload_images W imgs n tr2 = tr2 @ es3" "list_all media_event es3" by auto
  have "upload_images W (u # imgs) n tr = tr @ (es2 @ es3) \<and> list_all media_event (es2 @ es3)"
    using u 2 3 by (simp add: tr2_def)
  then show ?case by blast
qed

lemma upload_video_events:
  "\<exists>es. upload_video W v n tr = tr @ es \<and> list_all media_event es"
  by (auto simp: upload_video_def split: response.splits)

lemma attach_media_events:
  "\<exists>es. attach_media W imgs v n tr = tr @ es \<and> list_all media_event es"
proof -
  from upload_images_events [of W imgs n tr] obtain es1 where
    1: "upload_images W imgs n tr = tr @ es1" "list_all media_event es1" by auto
  show ?thesis
  proof (cases "truthy v")
    case False
    with 1 show ?thesis by (simp add: attach_media_def)
  next
    case True
    from upload_video_events [of W "the v" n "tr @ es1"] obtain es2 where
      2: "upload_video W (the v) n (tr @ es1) = (tr @ es1) @ es2" "list_all media_event es2" by auto
    have "attach_media W imgs v n tr = tr @ (es1 @ es2) \<and> list_all media_event (es1 @ es2)"
      using True 1 2 by (simp add: attach_media_def)
    then show ?thesis by blast
  qed
qed

lemma media_not_post: "list_all media_event es \<Longrightarrow> filter is_post es = [] \<and> filter is_delete es = []"
proof (induction es)
  case Nil
  then show ?case by simp
next
  case (Cons e es)
  then show ?case by (cases e) auto
qed

text \<open>
  Claim C8. Called with a timestamp, \<^verbatim>\<open>create_memo\<close> first issues the creation
  request with the content. When that request fails nothing else is sent. When it
  succeeds, the next request is a separate update of the new memo that sets its
  \<^verbatim>\<open>createTime\<close> to the timestamp; the message printed after it is a success
  message only for status 200 and a failure message otherwise (also when the update
  raises); everything after it is attachment traffic and messages, so no delete request
  is ever issued and the memo stays.
\<close>

theorem create_then_backdate:
  assumes "truthy timestamp"
  shows "(case http W (length tr) of
            ConnectionError \<Rightarrow>
              create_memo W text timestamp images video_url tr =
                tr @ [HttpPost text, Print ''Failed to create memo'' []]
          | Response s body \<Rightarrow>
              if raises_for_status s \<or> body = None
              then create_memo W text timestamp images video_url tr =
                     tr @ [HttpPost text, Print ''Failed to create memo'' []]
              else \<exists>rest. create_memo W text timestamp images video_url tr =
                     tr @ [HttpPost text, Print ''Memo created'' [str_opt (the body)],
                           HttpPatch (str_opt (the body)) (the timestamp),
                           backdate_report (http W (length tr + 2)) (the timestamp)] @ rest
                     \<and> list_all media_event rest
                     \<and> filter is_delete rest = []
                     \<and> (backdate_report (http W (length tr + 2)) (the timestamp) =
                            Print ''Timestamp updated'' [the timestamp]
                          \<longleftrightarrow> (\<exists>b. http W (length tr + 2) = Response 200 b)))"
proof (cases "http W (length tr)")
  case ConnectionError
  then show ?thesis by (simp add: create_memo_def)
next
  case (Response s body)
  show ?thesis
  proof (cases "raises_for_status s \<or> body = None")
    case True
    with Response show ?thesis by (auto simp: create_memo_def)
  next
    case False
    then obtain memo_name where b: "body = Some memo_name" "\<not> raises_for_status s" by auto
    define pre where "pre = tr @ [HttpPost text, Print ''Memo created'' [str_opt memo_name],
        HttpPatch (str_opt memo_name) (the timestamp),
        backdate_report (http W (length tr + 2)) (the timestamp)]"
    have "\<exists>rest. create_memo W text timestamp images video_url tr = pre @ rest
        \<and> list_all media_event rest"
    proof (cases "http W (length tr + 2)")
      case ConnectionError
      then have "create_memo W text timestamp images video_url tr = pre @ []"
        using Response b assms by (simp add: create_memo_def pre_def backdate_report_def)
      then show ?thesis by (intro exI [of _ "[]"]) simp
    next
      case r: (Response s' body')
      then have "create_memo W text timestamp images video_url tr =
          attach_media W images video_url memo_name pre"
        using Response b assms by (simp add: create_memo_def pre_def backdate_report_def)
      with attach_media_events [of W images video_url memo_name pre] show ?thesis by auto
    qed
    then obtain rest where "create_memo W text timestamp images video_url tr = pre @ rest"
      "list_all media_event rest" by blast
    with media_not_post [of rest] have "create_memo W text timestamp images video_url tr =
         tr @ [HttpPost text, Print ''Memo created'' [str_opt (the body)],
               HttpPatch (str_opt (the body)) (the timestamp),
               backdate_report (http W (length tr + 2)) (the timestamp)] @ rest
         \<and> list_all media_event rest \<and> filter is_delete rest = []"
      using b by (simp add: pre_def)
    then have "\<exists>rest. create_memo W text timestamp images video_url tr =
         tr @ [HttpPost text, Print ''Memo created'' [str_opt (the body)],
               HttpPatch (str_opt (the body)) (the timestamp),
               backdate_report (http W (length tr + 2)) (the timestamp)] @ rest
         \<and> list_all media_event rest \<and> filter is_delete rest = []"
      by blast
    moreover have "backdate_report r ts = Print ''Timestamp updated'' [ts]
        \<longleftrightarrow> (\<exists>b. r = Response 200 b)" for r ts
      by (cases r) (simp_all add: backdate_report_def del: str_nat.simps)
    ultimately show ?thesis
      using Response False by auto
  qed
qed



theorem create_then_backdate_witness:
  "truthy (Some ''2024-01-01T10:00:00.000Z'')
   \<and> create_memo world1 ''hello'' (Some ''2024-01-01T10:00:00.000Z'') [] None [] =
       [HttpPost ''hello'', Print ''Memo created'' [''memos/1''],
        HttpPatch ''memos/1'' ''2024-01-01T10:00:00.000Z'',
        Print ''Timestamp update failed'' [''500'']]"
proof -
  have t: "truthy (Some ''2024-01-01T10:00:00.000Z'')" by simp
  have n: "str_nat 500 = ''500''" by code_simp
  have m: "attach_media V [] None k xs = xs" for V k xs
    by (simp add: attach_media_def)
  have c: "create_memo world1 ''hello'' (Some ''2024-01-01T10:00:00.000Z'') [] None [] =
       [HttpPost ''hello'', Print ''Memo created'' [''memos/1''],
        HttpPatch ''memos/1'' ''2024-01-01T10:00:00.000Z'',
        Print ''Timestamp update failed'' [''500'']]"
    by (simp add: create_memo_def world1_def raises_for_status_def str_opt_def m n
        del: str_nat.simps)
  from create_then_backdate [OF t, of world1 "''hello''" "[]" None "[]"] t c
  show ?thesis by simp
qed

lemma create_memo_events:
  "\<exists>es. create_memo W text timestamp images video_url tr = tr @ HttpPost text # es
     \<and> filter is_post es = [] \<and> filter is_delete es = []"
proof -
  have media: "\<exists>es. attach_media W images video_url n (tr @ HttpPost text # pre) =
        tr @ HttpPost text # es \<and> filter is_post es = [] \<and> filter is_delete es = []"
    if "filter is_post pre = []" "filter is_delete pre = []" for n pre
  proof -
    from attach_media_events [of W images video_url n "tr @ HttpPost text # pre"]
    obtain es where es: "attach_media W images video_url n (tr @ HttpPost text # pre) =
        (tr @ HttpPost text # pre) @ es" "list_all media_event es" by auto
    with media_not_post [of es] that
    have "attach_media W images video_url n (tr @ HttpPost text # pre) =
        tr @ HttpPost text # (pre @ es) \<and> filter is_post (pre @ es) = []
        \<and> filter is_delete (pre @ es) = []" by simp
    then show ?thesis by blast
  qed
  show ?thesis
  proof (cases "http W (length tr)")
    case ConnectionError
    then show ?thesis by (simp add: create_memo_def)
  next
    case (Response s body)
    show ?thesis
    proof (cases "raises_for_status s \<or> body = None")
      case True
      with Response show ?thesis by (auto simp: create_memo_def)
    next
      case False
      then obtain n where b: "body = Some n" "\<not> raises_for_status s" by auto
      show ?thesis
      proof (cases "truthy timestamp")
        case False
        with Response b media [of "[Print ''Memo created'' [str_opt n]]" n]
        show ?thesis by (simp add: create_memo_def)
      next
        case True
        show ?thesis
        proof (cases "http W (length tr + 2)")
          case ConnectionError
          with Response b True show ?thesis by (simp add: create_memo_def)
        next
          case r: (Response s' body')
          with Response b True
            media [of "[Print ''Memo created'' [str_opt n], HttpPatch (str_opt n) (the timestamp),
               (if s' = 200 then Print ''Timestamp updated'' [the timestamp]
                else Print ''Timestamp update failed'' [str_nat s'])]" n]
          show ?thesis by (simp add: create_memo_def del: str_nat.simps)
        qed
      qed
    qed
  qed
qed

lemma create_memo_posts:
  "length (filter is_post (create_memo W text timestamp images video_url tr)) =
     Suc (length (filter is_post tr))"
proof -
  from create_memo_events [of W "text" timestamp images video_url tr] obtain es where
    "create_memo W text timestamp images video_url tr = tr @ HttpPost text # es"
    "filter is_post es = []" by auto
  then show ?thesis by simp
qed

lemma process_tweets_inv:
  assumes "finite seen" and "process_tweets W md5 ts (seen, tr) = (seen', tr')"
  shows "finite seen' \<and> seen \<subseteq> seen'
       \<and> length (filter is_post tr') + card seen = length (filter is_post tr) + card seen'"
  using assms
proof (induction ts arbitrary: seen tr)
  case Nil
  then show ?case by simp
next
  case (Cons x ts)
  show ?case
  proof (cases x)
    case None
    with Cons show ?thesis by simp
  next
    case (Some t)
    show ?thesis
    proof (cases "texts t \<noteq> [] \<and> signature md5 t \<notin> seen")
      case False
      with Cons Some show ?thesis by (auto split: if_splits)
    next
      case True
      define tr1 where "tr1 = create_memo W (tweet_text t) (tweet_timestamp t) (image_srcs t)
          (tweet_video_url t) tr"
      from True Cons.prems Some
      have "process_tweets W md5 ts (insert (signature md5 t) seen, tr1) = (seen', tr')"
        by (simp add: tr1_def)
      from Cons.IH [OF _ this] Cons.prems(1)
      have "finite seen'" "insert (signature md5 t) seen \<subseteq> seen'"
        "length (filter is_post tr') + card (insert (signature md5 t) seen) =
         length (filter is_post tr1) + card seen'"
        by auto
      moreover have "length (filter is_post tr1) = Suc (length (filter is_post tr))"
        by (simp add: tr1_def create_memo_posts)
      moreover have "card (insert (signature md5 t) seen) = Suc (card seen)"
        using True Cons.prems(1) by simp
      ultimately show ?thesis by auto
    qed
  qed
qed

lemma scrape_loop_inv:
  assumes "finite seen" and "scrape_loop W md5 n i (seen, tr) = (seen', tr')"
  shows "finite seen' \<and> seen \<subseteq> seen'
       \<and> length (filter is_post tr') + card seen = length (filter is_post tr) + card seen'"
  using assms
proof (induction W md5 n i "(seen, tr)" arbitrary: seen tr rule: scrape_loop.induct)
  case (1 W md5 n i)
  show ?case
  proof (cases "int i < n")
    case False
    with "1.prems" show ?thesis by simp
  next
    case True
    obtain s1 t1 where p: "process_tweets W md5 (visible W i) (seen, tr) = (s1, t1)"
      by (cases "process_tweets W md5 (visible W i) (seen, tr)") auto
    from process_tweets_inv [OF "1.prems"(1) p]
    have a: "finite s1" "seen \<subseteq> s1"
      "length (filter is_post t1) + card seen = length (filter is_post tr) + card s1" by auto
    from "1.prems"(2) True p have r: "scrape_loop W md5 n (Suc i) (s1, t1) = (seen', tr')"
      by (simp del: scrape_loop.simps add: scrape_loop.simps [of W md5 n i])
    from "1.hyps" [OF True p a(1) r]
    have "finite seen'" "s1 \<subseteq> seen'"
      "length (filter is_post tr') + card s1 = length (filter is_post t1) + card seen'" by auto
    with a show ?thesis by auto
  qed
qed


lemma process_tweets_mono: "seen \<subseteq> fst (process_tweets W md5 ts (seen, tr))"
proof (induction ts arbitrary: seen tr)
  case Nil
  then show ?case by simp
next
  case (Cons x ts)
  show ?case
  proof (cases x)
    case None
    with Cons show ?thesis by simp
  next
    case (Some t)
    have "insert (signature md5 t) seen \<subseteq> fst (process_tweets W md5 ts (insert (signature md5 t) seen, tr1))" for tr1
      by (rule Cons.IH)
    then have "seen \<subseteq> fst (process_tweets W md5 ts (insert (signature md5 t) seen, tr1))" for tr1
      by blast
    with Cons.IH [of seen tr] Some show ?thesis by simp
  qed
qed

lemma scrape_loop_mono: "seen \<subseteq> fst (scrape_loop W md5 n i (seen, tr))"
proof (induction W md5 n i "(seen, tr)" arbitrary: seen tr rule: scrape_loop.induct)
  case (1 W md5 n i)
  show ?case
  proof (cases "int i < n")
    case False
    then show ?thesis by simp
  next
    case True
    obtain s1 t1 where p: "process_tweets W md5 (visible W i) (seen, tr) = (s1, t1)"
      by (cases "process_tweets W md5 (visible W i) (seen, tr)") auto
    have "seen \<subseteq> s1"
      using process_tweets_mono [of seen W md5 "visible W i" tr] p by simp
    moreover have "s1 \<subseteq> fst (scrape_loop W md5 n (Suc i) (s1, t1))"
      by (rule "1.hyps" [OF True p])
    moreover have "scrape_loop W md5 n i (seen, tr) = scrape_loop W md5 n (Suc i) (s1, t1)"
      using True p by (simp del: scrape_loop.simps add: scrape_loop.simps [of W md5 n i])
    ultimately show ?thesis by simp
  qed
qed

text \<open>
  Claim C9. A visible tweet whose signature is already in \<^verbatim>\<open>seen_tweets\<close> changes
  nothing: no request is issued for it. A tweet with text whose signature is new puts it
  into \<^verbatim>\<open>seen_tweets\<close> and causes exactly one creation request. \<^verbatim>\<open>seen_tweets\<close> only
  grows, over one scan of the visible tweets and over the whole scroll loop. In a whole
  run the number of creation requests is the number of distinct signatures seen.
\<close>

theorem one_memo_per_signature:
  "(signature md5 t \<in> seen \<longrightarrow> process_tweets W md5 [Some t] (seen, tr) = (seen, tr))
   \<and> (texts t \<noteq> [] \<and> signature md5 t \<notin> seen \<longrightarrow>
        process_tweets W md5 [Some t] (seen, tr) =
          (insert (signature md5 t) seen,
           create_memo W (tweet_text t) (tweet_timestamp t) (image_srcs t) (tweet_video_url t) tr)
        \<and> length (filter is_post
             (create_memo W (tweet_text t) (tweet_timestamp t) (image_srcs t) (tweet_video_url t) tr)) =
            Suc (length (filter is_post tr)))
   \<and> seen \<subseteq> fst (process_tweets W md5 ts (seen, tr))
   \<and> seen \<subseteq> fst (scrape_loop W md5 n i (seen, tr))
   \<and> finite (fst (scrape_x cfg W md5))
   \<and> length (filter is_post (snd (scrape_x cfg W md5))) = card (fst (scrape_x cfg W md5))"
proof -
  have a: "signature md5 t \<in> seen \<longrightarrow> process_tweets W md5 [Some t] (seen, tr) = (seen, tr)"
    by simp
  have b: "texts t \<noteq> [] \<and> signature md5 t \<notin> seen \<longrightarrow>
        process_tweets W md5 [Some t] (seen, tr) =
          (insert (signature md5 t) seen,
           create_memo W (tweet_text t) (tweet_timestamp t) (image_srcs t) (tweet_video_url t) tr)
        \<and> length (filter is_post
             (create_memo W (tweet_text t) (tweet_timestamp t) (image_srcs t) (tweet_video_url t) tr)) =
            Suc (length (filter is_post tr))"
    by (simp add: create_memo_posts)
  have c: "seen \<subseteq> fst (process_tweets W md5 ts (seen, tr))"
    by (rule process_tweets_mono)
  have d: "seen \<subseteq> fst (scrape_loop W md5 n i (seen, tr))"
    by (rule scrape_loop_mono)
  have e: "finite (fst (scrape_x cfg W md5))
     \<and> length (filter is_post (snd (scrape_x cfg W md5))) = card (fst (scrape_x cfg W md5))"
  proof (cases "logged_in W \<and> tweets_loaded W")
    case False
    then show ?thesis by (auto simp: scrape_x_def)
  next
    case True
    obtain s1 t1 where r: "scrape_loop W md5 (MAX_SCROLLS cfg) 0 ({}, []) = (s1, t1)"
      by (cases "scrape_loop W md5 (MAX_SCROLLS cfg) 0 ({}, [])") auto
    from scrape_loop_inv [OF _ r] have "finite s1 \<and> length (filter is_post t1) = card s1"
      by simp
    with True r show ?thesis by (simp add: scrape_x_def)
  qed
  from a b c d e show ?thesis by blast
qed

lemma str_nat_0: "str_nat 0 = ''0''"
  by code_simp

lemma str_nat_500: "str_nat 500 = ''500''"
  by code_simp

theorem one_memo_per_signature_witness:
  "process_tweets world1 (\<lambda>s. s) [Some tweet1] ({signature (\<lambda>s. s) tweet1}, []) =
     ({signature (\<lambda>s. s) tweet1}, [])
   \<and> fst (scrape_x live world1 (\<lambda>s. s)) = {signature (\<lambda>s. s) tweet1, signature (\<lambda>s. s) tweet2}
   \<and> filter is_post (snd (scrape_x live world1 (\<lambda>s. s))) = [HttpPost ''hello'', HttpPost ''world'']
   \<and> card (fst (scrape_x live world1 (\<lambda>s. s))) = 2"
proof -
  have m: "attach_media V [] None k xs = xs" for V k xs
    by (simp add: attach_media_def)
  have s1: "signature (\<lambda>s. s) tweet1 = ''hello2024-01-01T10:00:00.000Z0False''"
    by (simp add: signature_def tweet_text_def tweet_timestamp_def tweet_video_url_def
        str_opt_def tweet1_def str_nat_0 del: str_nat.simps)
  have s2: "signature (\<lambda>s. s) tweet2 = ''world2024-01-02T10:00:00.000Z0False''"
    by (simp add: signature_def tweet_text_def tweet_timestamp_def tweet_video_url_def
        str_opt_def tweet2_def str_nat_0 del: str_nat.simps)
  have c1: "create_memo world1 (tweet_text tweet1) (tweet_timestamp tweet1) (image_srcs tweet1)
        (tweet_video_url tweet1) [] =
      [HttpPost ''hello'', Print ''Memo created'' [''memos/1''],
       HttpPatch ''memos/1'' ''2024-01-01T10:00:00.000Z'', Print ''Timestamp update failed'' [''500'']]"
    by (simp add: create_memo_def world1_def raises_for_status_def str_opt_def m str_nat_500
        tweet_text_def tweet_timestamp_def tweet_video_url_def tweet1_def del: str_nat.simps)
  have c2: "create_memo world1 (tweet_text tweet2) (tweet_timestamp tweet2) (image_srcs tweet2)
        (tweet_video_url tweet2)
        [HttpPost ''hello'', Print ''Memo created'' [''memos/1''],
         HttpPatch ''memos/1'' ''2024-01-01T10:00:00.000Z'', Print ''Timestamp update failed'' [''500'']] =
      [HttpPost ''hello'', Print ''Memo created'' [''memos/1''],
       HttpPatch ''memos/1'' ''2024-01-01T10:00:00.000Z'', Print ''Timestamp update failed'' [''500''],
       HttpPost ''world'', Print ''Memo created'' [''memos/1''],
       HttpPatch ''memos/1'' ''2024-01-02T10:00:00.000Z'', Print ''Timestamp update failed'' [''500'']]"
    by (simp add: create_memo_def world1_def raises_for_status_def str_opt_def m str_nat_500
        tweet_text_def tweet_timestamp_def tweet_video_url_def tweet2_def del: str_nat.simps)
  have t: "texts tweet1 \<noteq> [] \<and> texts tweet2 \<noteq> []"
    by (simp add: tweet1_def tweet2_def)
  have v: "visible world1 0 = [Some tweet1] \<and> visible world1 (Suc 0) = [Some tweet1, None, Some tweet2]"
    by (simp add: world1_def)
  have ne: "signature (\<lambda>s. s) tweet2 \<noteq> signature (\<lambda>s. s) tweet1"
    by (simp add: s1 s2)
  have p0: "process_tweets world1 (\<lambda>s. s) (visible world1 0) ({}, []) =
      ({signature (\<lambda>s. s) tweet1},
       [HttpPost ''hello'', Print ''Memo created'' [''memos/1''],
        HttpPatch ''memos/1'' ''2024-01-01T10:00:00.000Z'', Print ''Timestamp update failed'' [''500'']])"
    using t v by (simp add: c1)
  have p1: "process_tweets world1 (\<lambda>s. s) (visible world1 (Suc 0))
      ({signature (\<lambda>s. s) tweet1},
       [HttpPost ''hello'', Print ''Memo created'' [''memos/1''],
        HttpPatch ''memos/1'' ''2024-01-01T10:00:00.000Z'', Print ''Timestamp update failed'' [''500'']]) =
      ({signature (\<lambda>s. s) tweet1, signature (\<lambda>s. s) tweet2},
       [HttpPost ''hello'', Print ''Memo created'' [''memos/1''],
        HttpPatch ''memos/1'' ''2024-01-01T10:00:00.000Z'', Print ''Timestamp update failed'' [''500''],
        HttpPost ''world'', Print ''Memo created'' [''memos/1''],
        HttpPatch ''memos/1'' ''2024-01-02T10:00:00.000Z'', Print ''Timestamp update failed'' [''500'']])"
    using t v ne by (auto simp: c2)
  have l: "scrape_loop world1 (\<lambda>s. s) 2 0 ({}, []) =
      ({signature (\<lambda>s. s) tweet1, signature (\<lambda>s. s) tweet2},
       [HttpPost ''hello'', Print ''Memo created'' [''memos/1''],
        HttpPatch ''memos/1'' ''2024-01-01T10:00:00.000Z'', Print ''Timestamp update failed'' [''500''],
        HttpPost ''world'', Print ''Memo created'' [''memos/1''],
        HttpPatch ''memos/1'' ''2024-01-02T10:00:00.000Z'', Print ''Timestamp update failed'' [''500'']])"
    apply (subst scrape_loop.simps)
    apply (simp only: p0 of_nat_0 if_True zero_less_numeral)
    apply (subst scrape_loop.simps)
    apply (simp only: p1)
    apply (subst scrape_loop.simps)
    apply simp
    done
  have x: "scrape_x live world1 (\<lambda>s. s) =
      ({signature (\<lambda>s. s) tweet1, signature (\<lambda>s. s) tweet2},
       [HttpPost ''hello'', Print ''Memo created'' [''memos/1''],
        HttpPatch ''memos/1'' ''2024-01-01T10:00:00.000Z'', Print ''Timestamp update failed'' [''500''],
        HttpPost ''world'', Print ''Memo created'' [''memos/1''],
        HttpPatch ''memos/1'' ''2024-01-02T10:00:00.000Z'', Print ''Timestamp update failed'' [''500'']])"
  proof -
    have "logged_in world1 \<and> tweets_loaded world1 \<and> MAX_SCROLLS live = 2"
      by (simp add: world1_def live_def)
    then show ?thesis
      by (simp add: scrape_x_def l del: scrape_loop.simps)
  qed
  note w = one_memo_per_signature [of "\<lambda>s. s" tweet1 "{signature (\<lambda>s. s) tweet1}" world1 "[]"
      "[]" 0 0 live]
  have f: "process_tweets world1 (\<lambda>s. s) [Some tweet1] ({signature (\<lambda>s. s) tweet1}, []) =
     ({signature (\<lambda>s. s) tweet1}, [])"
    using w by blast
  have k: "card (fst (scrape_x live world1 (\<lambda>s. s))) = 2"
    using w by (simp add: x)
  from f k show ?thesis by (simp add: x)
qed


end
